theory Spec2Isabelle
  imports Complex_Main
begin

section \<open>Data model of the snapshot store (BackupManager.ts)\<close>

text \<open>
  Numbers are JavaScript numbers in the source. Timestamps, slot indices and counts are
  modelled as \<open>int\<close> (milliseconds since the epoch, inside the range of \<open>Date\<close>, where
  \<open>new Date(t).getTime()\<close> is \<open>t\<close>); amounts of SOL are modelled as exact rationals.
  A field that may be \<open>undefined\<close> is an \<open>option\<close>, \<open>None\<close> standing for \<open>undefined\<close>.
  Strings are the strings the interfaces declare.
\<close>

record Identity =
  publicKey :: string
  privateKey :: string
  createdAt :: "int option"

record SubWallet = Identity +
  index :: "int option"

text \<open>
  The value found under \<open>mainWallet\<close>: falsy (absent, \<open>null\<close>, ...), an object, or a
  truthy value that is no object (a string, a number, \<open>true\<close>), the three cases that
  \<open>normalizeBackupFormat\<close> tells apart.
\<close>

datatype MainSlot = MainUndefined | MainObject Identity | MainOther

record Metadata =
  version :: string
  createdBy :: string
  totalWallets :: int

text \<open>The parsed content of a backup file, before normalisation (\<open>rawBackup: any\<close>).\<close>

record RawBackup =
  raw_metadata :: "Metadata option"
  raw_timestamp :: "int option"
  raw_createdAt :: "int option"
  raw_mainWallet :: MainSlot
  raw_subWallets :: "SubWallet list option"
  raw_version :: "string option"

record WalletBackup =
  timestamp :: int
  mainWallet :: MainSlot
  subWallets :: "SubWallet list option"
  metadata :: Metadata

record BackupFile =
  filename :: string
  path :: string
  file_timestamp :: int
  data :: WalletBackup

text \<open>
  An element of the reconciled view: the spread \<open>{...wallet, backupFile, timestamp}\<close>,
  kept as the wallet together with its provenance (the two provenance fields override
  any field of the same name in the wallet).
\<close>

record 'a Entry =
  item :: 'a
  backupFile :: string
  sourceTimestamp :: int

record Reconciled =
  mainWallets :: "Identity option Entry list"
  reconciledSubWallets :: "SubWallet Entry list"

text \<open>A thrown exception is kept as its message.\<close>

type_synonym exn = string

text \<open>
  The world outside the process: the files of the backup directory in \<open>readdir\<close> order,
  each with its parsed content (\<open>None\<close>: the file cannot be read or parsed, or has a
  shape on which normalisation throws); the readings \<open>Date.now()\<close> returns, one per
  call; the key pairs \<open>Keypair.generate()\<close> returns, one per call; the error
  with which \<open>fs.writeFile\<close> rejects, if it does. A write that fails leaves the
  directory as it was (the store is atomic on failure, as section 5 of the
  specification requires of it).
\<close>

record world =
  files :: "(string \<times> RawBackup option) list"
  clock :: "nat \<Rightarrow> int"
  tick :: nat
  keygen :: "nat \<Rightarrow> string \<times> string"
  minted :: nat
  diskError :: "string option"

definition Date_now :: "world \<Rightarrow> int \<times> world" where
  "Date_now w = (clock w (tick w), w\<lparr>tick := Suc (tick w)\<rparr>)"

definition Keypair_generate :: "world \<Rightarrow> (string \<times> string) \<times> world" where
  "Keypair_generate w = (keygen w (minted w), w\<lparr>minted := Suc (minted w)\<rparr>)"

section \<open>Small JavaScript helpers\<close>

definition truthyNum :: "int option \<Rightarrow> bool" where
  "truthyNum v = (v \<noteq> None \<and> v \<noteq> Some 0)"

definition truthyMain :: "MainSlot \<Rightarrow> bool" where
  "truthyMain m = (m \<noteq> MainUndefined)"

definition startsWith :: "string \<Rightarrow> string \<Rightarrow> bool" where
  "startsWith s p = (take (length p) s = p)"

definition endsWith :: "string \<Rightarrow> string \<Rightarrow> bool" where
  "endsWith s p = (length p \<le> length s \<and> drop (length s - length p) s = p)"

definition digitChar :: "nat \<Rightarrow> char" where
  "digitChar d = (''0123456789'' ! d)"

fun showNat :: "nat \<Rightarrow> string" where
  "showNat n = (if n < 10 then [digitChar n] else showNat (n div 10) @ [digitChar (n mod 10)])"

definition showInt :: "int \<Rightarrow> string" where
  "showInt i = (if i < 0 then CHR ''-'' # showNat (nat (- i)) else showNat (nat i))"

text \<open>\<open>Array.prototype.findIndex\<close>; \<open>None\<close> stands for the result \<open>-1\<close>.\<close>

fun findIndex :: "('a \<Rightarrow> bool) \<Rightarrow> 'a list \<Rightarrow> nat option" where
  "findIndex p [] = None"
| "findIndex p (x # xs) =
     (if p x then Some 0 else map_option Suc (findIndex p xs))"

text \<open>
  \<open>array.filter((wallet, index, array) => array.findIndex(w => w.publicKey ===
  wallet.publicKey) === index)\<close>, for any key.
\<close>

definition uniqueByKey :: "('a \<Rightarrow> 'k) \<Rightarrow> 'a list \<Rightarrow> 'a list" where
  "uniqueByKey key xs =
     map (\<lambda>i. xs ! i)
       (filter (\<lambda>i. findIndex (\<lambda>w. key w = key (xs ! i)) xs = Some i) [0..<length xs])"

text \<open>\<open>Array.prototype.slice(0, n)\<close> for an integer \<open>n\<close>: a negative \<open>n\<close> counts from the end.\<close>

definition slice0 :: "int \<Rightarrow> 'a list \<Rightarrow> 'a list" where
  "slice0 n xs =
     (if n < 0 then take (nat (int (length xs) + n)) xs else take (nat n) xs)"

section \<open>BackupManager\<close>

definition placeholderMainWallet :: "int \<Rightarrow> Identity" where
  "placeholderMainWallet ts =
     \<lparr>publicKey = ''9q36V4YA4wNbywXzttshrKfAursbwVUv5F4zHZ1DbTFs'',
      privateKey = ''REPLACE_WITH_YOUR_MAIN_WALLET_PRIVATE_KEY_HERE'',
      createdAt = Some ts\<rparr>"

text \<open>The callback of \<open>(rawBackup.subWallets || []).map(...)\<close>.\<close>

definition normalizeSubWallet :: "int \<Rightarrow> nat \<Rightarrow> SubWallet \<Rightarrow> SubWallet" where
  "normalizeSubWallet ts i wallet =
     \<lparr>publicKey = publicKey wallet,
      privateKey = privateKey wallet,
      createdAt = (if truthyNum (createdAt wallet) then createdAt wallet else Some ts),
      index = (if index wallet \<noteq> None then index wallet else Some (int i))\<rparr>"

definition normalizeBackupFormat :: "RawBackup \<Rightarrow> world \<Rightarrow> WalletBackup \<times> world" where
  "normalizeBackupFormat rawBackup w =
     (if raw_metadata rawBackup \<noteq> None \<and> truthyNum (raw_timestamp rawBackup)
         \<and> truthyMain (raw_mainWallet rawBackup)
      then (\<lparr>timestamp = the (raw_timestamp rawBackup),
             mainWallet = raw_mainWallet rawBackup,
             subWallets = raw_subWallets rawBackup,
             metadata = the (raw_metadata rawBackup)\<rparr>, w)
      else
        let (ts, w1) =
              (if truthyNum (raw_timestamp rawBackup) \<or> truthyNum (raw_createdAt rawBackup)
               then ((if truthyNum (raw_createdAt rawBackup)
                      then the (raw_createdAt rawBackup)
                      else the (raw_timestamp rawBackup)), w)
               else Date_now w);
            mw = (case raw_mainWallet rawBackup of
                    MainObject m \<Rightarrow>
                      MainObject \<lparr>publicKey = publicKey m, privateKey = privateKey m,
                        createdAt = (if truthyNum (createdAt m) then createdAt m else Some ts)\<rparr>
                  | MainUndefined \<Rightarrow> MainObject (placeholderMainWallet ts)
                  | MainOther \<Rightarrow> MainUndefined);
            raws = (case raw_subWallets rawBackup of None \<Rightarrow> [] | Some ws \<Rightarrow> ws);
            subs = map (\<lambda>(i, wallet). normalizeSubWallet ts i wallet)
                     (zip [0..<length raws] raws)
        in (\<lparr>timestamp = ts,
             mainWallet = mw,
             subWallets = Some subs,
             metadata = \<lparr>version = (case raw_version rawBackup of
                                        None \<Rightarrow> ''1.0.0''
                                      | Some v \<Rightarrow> if v = [] then ''1.0.0'' else v),
                          createdBy = ''solana-volume-bot'',
                          totalWallets = (if truthyMain mw then 1 else 0) + int (length subs)\<rparr>\<rparr>,
            w1))"

definition backupDir :: string where
  "backupDir = ''wallet-backups''"

text \<open>
  The body of the loop of \<open>getBackupFiles\<close> over the directory entries (the directory
  exists and can be listed: \<open>ensureBackupDirectory\<close> creates it).
\<close>

fun readBackupFiles :: "(string \<times> RawBackup option) list \<Rightarrow> world \<Rightarrow> BackupFile list \<times> world" where
  "readBackupFiles [] w = ([], w)"
| "readBackupFiles ((name, content) # rest) w =
     (if startsWith name ''wallets-'' \<and> endsWith name ''.json''
      then (case content of
              None \<Rightarrow> readBackupFiles rest w
            | Some rawBackup \<Rightarrow>
                let (backup, w1) = normalizeBackupFormat rawBackup w;
                    (more, w2) = readBackupFiles rest w1
                in (\<lparr>filename = name, path = backupDir @ ''/'' @ name,
                      file_timestamp = timestamp backup, data = backup\<rparr> # more, w2))
      else readBackupFiles rest w)"

text \<open>
  \<open>backupFiles.sort((a, b) => b.timestamp - a.timestamp)\<close>: the sort of an array is
  stable, so files of equal timestamp keep their order; \<open>sort_key\<close> is the stable
  insertion sort.
\<close>

definition sortNewestFirst :: "BackupFile list \<Rightarrow> BackupFile list" where
  "sortNewestFirst fs = sort_key (\<lambda>f. - file_timestamp f) fs"

definition getBackupFiles :: "world \<Rightarrow> BackupFile list \<times> world" where
  "getBackupFiles w =
     (let (backupFiles, w1) = readBackupFiles (files w) w
      in (sortNewestFirst backupFiles, w1))"

definition mainEntries :: "BackupFile \<Rightarrow> Identity option Entry list" where
  "mainEntries f =
     (case mainWallet (data f) of
        MainUndefined \<Rightarrow> []
      | MainObject m \<Rightarrow>
          [\<lparr>item = Some m, backupFile = filename f, sourceTimestamp = file_timestamp f\<rparr>]
      | MainOther \<Rightarrow>
          [\<lparr>item = None, backupFile = filename f, sourceTimestamp = file_timestamp f\<rparr>])"

text \<open>
  The entries pushed for the sub-wallets of one file. On a file without \<open>subWallets\<close>
  the iteration throws; \<open>reconcile\<close> below has that case first.
\<close>

definition subEntries :: "BackupFile \<Rightarrow> SubWallet Entry list" where
  "subEntries f =
     (case subWallets (data f) of
        None \<Rightarrow> []
      | Some ws \<Rightarrow>
          map (\<lambda>s. \<lparr>item = s, backupFile = filename f, sourceTimestamp = file_timestamp f\<rparr>) ws)"

text \<open>
  The pure part of \<open>getAllWalletsFromBackups\<close>, on the listing it has read. Iterating
  over \<open>subWallets\<close> throws when a file that passed as new format has none.
\<close>

definition reconcile :: "BackupFile list \<Rightarrow> exn + Reconciled" where
  "reconcile backupFiles =
     (if \<exists>f \<in> set backupFiles. subWallets (data f) = None then Inl ''backupFile.data.subWallets is not iterable''
      else Inr \<lparr>mainWallets =
                uniqueByKey (\<lambda>e. map_option publicKey (item e))
                  (concat (map mainEntries backupFiles)),
               reconciledSubWallets =
                uniqueByKey (\<lambda>e. publicKey (item e))
                  (concat (map subEntries backupFiles))\<rparr>)"

definition getAllWalletsFromBackups :: "world \<Rightarrow> (exn + Reconciled) \<times> world" where
  "getAllWalletsFromBackups w =
     (let (backupFiles, w1) = getBackupFiles w in (reconcile backupFiles, w1))"

text \<open>
  \<open>fs.writeFile(filepath, ...)\<close>: a file of that name is overwritten in place, a new
  file is listed last.
\<close>

fun putFile :: "string \<Rightarrow> RawBackup \<Rightarrow> (string \<times> RawBackup option) list
    \<Rightarrow> (string \<times> RawBackup option) list" where
  "putFile name content [] = [(name, Some content)]"
| "putFile name content ((n, c) # rest) =
     (if n = name then (n, Some content) # rest else (n, c) # putFile name content rest)"

definition writeFile :: "string \<Rightarrow> RawBackup \<Rightarrow> world \<Rightarrow> (exn + unit) \<times> world" where
  "writeFile name content w =
     (case diskError w of
        Some msg \<Rightarrow> (Inl msg, w)
      | None \<Rightarrow> (Inr (), w\<lparr>files := putFile name content (files w)\<rparr>))"

text \<open>
  \<open>createBackup\<close>. What \<open>JSON.stringify\<close> writes is read back by \<open>JSON.parse\<close> as the
  same object, so the stored content is the object itself. (The sub-wallets that come
  from the reconciled view are written with their two provenance fields; no reader
  looks at them, and the model does not store them.)
\<close>

definition createBackup :: "MainSlot \<Rightarrow> SubWallet list \<Rightarrow> world \<Rightarrow> (exn + string) \<times> world" where
  "createBackup mw subs w =
     (let (ts, w1) = Date_now w;
          backup = \<lparr>raw_metadata = Some \<lparr>version = ''1.0.0'', createdBy = ''solana-volume-bot'',
                       totalWallets = (if truthyMain mw then 1 else 0) + int (length subs)\<rparr>,
                    raw_timestamp = Some ts, raw_createdAt = None, raw_mainWallet = mw,
                    raw_subWallets = Some subs, raw_version = None\<rparr>;
          name = ''wallets-'' @ showInt ts @ ''.json''
      in case writeFile name backup w1 of
           (Inr u, w2) \<Rightarrow> (Inr (backupDir @ ''/'' @ name), w2)
         | (Inl msg, w2) \<Rightarrow> (Inl (''Failed to create wallet backup: '' @ msg), w2))"

definition updateBackupWithNewWallets ::
    "SubWallet list \<Rightarrow> SubWallet list \<Rightarrow> world \<Rightarrow> (exn + string) \<times> world" where
  "updateBackupWithNewWallets existingWallets newWallets w =
     createBackup MainUndefined (existingWallets @ newWallets) w"

section \<open>WalletManager: provisioning\<close>

text \<open>
  \<open>WalletInfo\<close>: the identity fields of a wallet with a balance and, where the source
  copies it, the name of the backup file.
\<close>

record 'a Info =
  identity :: 'a
  balance :: rat
  info_backupFile :: "string option"

type_synonym WalletInfo = "SubWallet Info"

record Outcome =
  success :: bool
  error :: "string option"

record CreateResult = Outcome +
  wallets :: "WalletInfo list option"

text \<open>
  The loop \<open>for (let i = 0; i < walletsToCreate; i++)\<close> of \<open>createSubWallets\<close>, from
  iteration \<open>i\<close> on. (The events \<open>backup-created\<close> and \<open>wallet-update\<close> that the two
  managers emit have no listener that acts on the store or the bot and are not modelled.)
\<close>

fun mintWallets :: "nat \<Rightarrow> nat \<Rightarrow> nat \<Rightarrow> world \<Rightarrow> SubWallet list \<times> world" where
  "mintWallets 0 i currentSubWalletCount w = ([], w)"
| "mintWallets (Suc k) i currentSubWalletCount w =
     (let ((pk, sk), w1) = Keypair_generate w;
          (now, w2) = Date_now w1;
          wallet = \<lparr>publicKey = pk, privateKey = sk, createdAt = Some now,
                    index = Some (int currentSubWalletCount + int i)\<rparr>;
          (rest, w3) = mintWallets k (Suc i) currentSubWalletCount w2
      in (wallet # rest, w3))"

definition infoWithFile :: "SubWallet Entry \<Rightarrow> WalletInfo" where
  "infoWithFile wallet =
     \<lparr>identity = item wallet, balance = 0, info_backupFile = Some (backupFile wallet)\<rparr>"

definition infoNoFile :: "SubWallet \<Rightarrow> WalletInfo" where
  "infoNoFile wallet = \<lparr>identity = wallet, balance = 0, info_backupFile = None\<rparr>"

definition createSubWallets :: "int \<Rightarrow> world \<Rightarrow> CreateResult \<times> world" where
  "createSubWallets count w =
     (case getAllWalletsFromBackups w of
        (Inl msg, w1) \<Rightarrow> (\<lparr>success = False, error = Some msg, wallets = None\<rparr>, w1)
      | (Inr existingWallets, w1) \<Rightarrow>
          let currentSubWalletCount = length (reconciledSubWallets existingWallets) in
          if int currentSubWalletCount \<ge> count
          then (\<lparr>success = True, error = None,
                  wallets = Some (map infoWithFile
                              (slice0 count (reconciledSubWallets existingWallets)))\<rparr>, w1)
          else
            let walletsToCreate = count - int currentSubWalletCount;
                (newWallets, w2) = mintWallets (nat walletsToCreate) 0 currentSubWalletCount w1;
                existing = map item (reconciledSubWallets existingWallets)
            in case updateBackupWithNewWallets existing newWallets w2 of
                 (Inl msg, w3) \<Rightarrow> (\<lparr>success = False, error = Some msg, wallets = None\<rparr>, w3)
               | (Inr p, w3) \<Rightarrow>
                   (\<lparr>success = True, error = None,
                     wallets = Some (map infoNoFile (slice0 count (existing @ newWallets)))\<rparr>,
                    w3))"

record AllWallets =
  all_mainWallets :: "Identity option Info list"
  all_subWallets :: "WalletInfo list"
  all_totalWallets :: int

definition getAllWallets :: "world \<Rightarrow> AllWallets \<times> world" where
  "getAllWallets w =
     (case getAllWalletsFromBackups w of
        (Inl msg, w1) \<Rightarrow>
          (\<lparr>all_mainWallets = [], all_subWallets = [], all_totalWallets = 0\<rparr>, w1)
      | (Inr walletsFromBackups, w1) \<Rightarrow>
          (\<lparr>all_mainWallets =
               map (\<lambda>wallet. \<lparr>identity = item wallet, balance = 0,
                               info_backupFile = Some (backupFile wallet)\<rparr>)
                 (mainWallets walletsFromBackups),
             all_subWallets = map infoWithFile (reconciledSubWallets walletsFromBackups),
             all_totalWallets = int (length (mainWallets walletsFromBackups))
                              + int (length (reconciledSubWallets walletsFromBackups))\<rparr>, w1))"

section \<open>WalletManager: recovery\<close>

text \<open>
  The network, as \<open>recoverAllFunds\<close> sees it. \<open>keyError k\<close> is the message with which
  \<open>Keypair.fromSecretKey(bs58.decode(k))\<close> throws, if it does; \<open>rpcBalance\<close> is
  \<open>connection.getBalance\<close> in lamports (\<open>None\<close>: the call throws); \<open>tokenSale pk token\<close>
  is the signature of the swap when \<open>sellTokensFromWallet\<close> sells tokens of the wallet
  (that method catches every error and then reports no success); \<open>submitTransfer\<close>
  stands for fetching a block hash, sending and confirming the transfer, and yields the
  signature or the error thrown on the way. Each worker is visited once, so one answer
  per public key describes a call. Pauses between the steps are not modelled.
\<close>

record Ledger =
  keyError :: "string \<Rightarrow> string option"
  rpcBalance :: "string \<Rightarrow> int option"
  tokenSale :: "string \<Rightarrow> string \<Rightarrow> string option"
  submitTransfer :: "string \<Rightarrow> int \<Rightarrow> exn + string"

datatype netcall =
    TokenSale string string
  | BalanceQuery string
  | Transfer string int

definition LAMPORTS_PER_SOL :: rat where
  "LAMPORTS_PER_SOL = 1000000000"

text \<open>\<open>WalletManager.getBalance\<close>, with the network calls it makes.\<close>

definition getBalance :: "Ledger \<Rightarrow> string \<Rightarrow> rat \<times> netcall list" where
  "getBalance L publicKeyString =
     (if publicKeyString = [] then (0, [])
      else (case rpcBalance L publicKeyString of
              None \<Rightarrow> (0, [BalanceQuery publicKeyString])
            | Some lamports \<Rightarrow>
                (of_int lamports / LAMPORTS_PER_SOL, [BalanceQuery publicKeyString])))"

record SellResult =
  sell_success :: bool
  sell_transactions :: "string list option"

definition sellTokensFromWallet :: "Ledger \<Rightarrow> string \<Rightarrow> string \<Rightarrow> SellResult \<times> netcall list" where
  "sellTokensFromWallet L walletPublicKey tokenAddress =
     (case tokenSale L walletPublicKey tokenAddress of
        Some signature \<Rightarrow>
          (\<lparr>sell_success = True, sell_transactions = Some [signature]\<rparr>,
           [TokenSale walletPublicKey tokenAddress])
      | None \<Rightarrow>
          (\<lparr>sell_success = False, sell_transactions = None\<rparr>,
           [TokenSale walletPublicKey tokenAddress]))"

record RecoverResult = Outcome +
  recoveredAmount :: "rat option"
  transactions :: "string list option"

text \<open>
  The state of the loop of \<open>recoverAllFunds\<close>: the transactions pushed so far (the
  array \<open>transactions\<close>, here \<open>txs\<close>), the total recovered so far and the network calls
  made so far.
\<close>

type_synonym recovery = "string list \<times> rat \<times> netcall list"

definition truthyString :: "string option \<Rightarrow> bool" where
  "truthyString s = (s \<noteq> None \<and> s \<noteq> Some [])"

text \<open>
  The body of the loop for one wallet. A throw inside the inner \<open>try\<close> ends the
  processing of this wallet and keeps what was pushed before.
\<close>

definition recoverWallet :: "Ledger \<Rightarrow> string option \<Rightarrow> WalletInfo \<Rightarrow> recovery \<Rightarrow> recovery" where
  "recoverWallet L tokenAddress wallet acc =
     (case acc of (txs, totalRecovered, calls) \<Rightarrow>
      if keyError L (privateKey (identity wallet)) \<noteq> None
      then (txs, totalRecovered, calls)
      else
        let (txs1, calls1) =
              (if truthyString tokenAddress
               then (let (sellResult, made) =
                           sellTokensFromWallet L (publicKey (identity wallet)) (the tokenAddress)
                     in if sell_success sellResult
                        then (txs @ (case sell_transactions sellResult of
                                                None \<Rightarrow> [] | Some ts \<Rightarrow> ts),
                              calls @ made)
                        else (txs, calls @ made))
               else (txs, calls));
            (balance, made2) = getBalance L (publicKey (identity wallet));
            calls2 = calls1 @ made2
        in if balance > 1 / 1000000
           then
             let feeInSol = 1 / 1000000;
                 transferableAmount = balance - feeInSol;
                 transferLamports = \<lfloor>transferableAmount * LAMPORTS_PER_SOL\<rfloor>
             in if transferLamports > 0
                then (case submitTransfer L (publicKey (identity wallet)) transferLamports of
                        Inr signature \<Rightarrow>
                          (txs1 @ [signature], totalRecovered + transferableAmount,
                           calls2 @ [Transfer (publicKey (identity wallet)) transferLamports])
                      | Inl msg \<Rightarrow>
                          (txs1, totalRecovered,
                           calls2 @ [Transfer (publicKey (identity wallet)) transferLamports]))
                else (txs1, totalRecovered, calls2)
           else (txs1, totalRecovered, calls2))"

definition recoverAllFunds ::
    "Ledger \<Rightarrow> string \<Rightarrow> string option \<Rightarrow> world \<Rightarrow> (RecoverResult \<times> netcall list) \<times> world" where
  "recoverAllFunds L mainWalletPrivateKey tokenAddress w =
     (if mainWalletPrivateKey = [] \<or> length mainWalletPrivateKey < 50
      then ((\<lparr>success = False, error = Some ''Invalid main wallet private key'',
               recoveredAmount = None, transactions = None\<rparr>, []), w)
      else (case keyError L mainWalletPrivateKey of
              Some msg \<Rightarrow>
                ((\<lparr>success = False, error = Some msg,
                   recoveredAmount = None, transactions = None\<rparr>, []), w)
            | None \<Rightarrow>
                let (wallets, w1) = getAllWallets w;
                    (txs, totalRecovered, calls) =
                       foldl (\<lambda>acc wallet. recoverWallet L tokenAddress wallet acc)
                         ([], 0, []) (all_subWallets wallets)
                in ((\<lparr>success = True, error = None,
                       recoveredAmount = Some totalRecovered,
                       transactions = Some txs\<rparr>, calls), w1)))"

section \<open>LicenseManager\<close>

text \<open>
  The two cryptographic steps of \<open>validateLicenseKey\<close> are parameters: \<open>hmacSha256\<close> is
  the base64 digest of the payload under the secret key, \<open>decodePayload\<close> is
  \<open>JSON.parse(Buffer.from(payloadB64, 'base64').toString())\<close> followed by the read of
  \<open>exp\<close> (\<open>Inl\<close>: one of them throws; \<open>Inr None\<close>: the payload has no \<open>exp\<close>).
  The message for an expired key is kept without the date it ends with.
\<close>

record Crypto =
  hmacSha256 :: "string \<Rightarrow> string"
  decodePayload :: "string \<Rightarrow> exn + int option"

record LicenseValidationResult =
  valid :: bool
  license_error :: "string option"
  expiresAt :: "int option"
  remainingTime :: "string option"

text \<open>\<open>String.prototype.split\<close> on a one-character separator.\<close>

fun splitOn :: "char \<Rightarrow> string \<Rightarrow> string list" where
  "splitOn c [] = [[]]"
| "splitOn c (x # xs) =
     (if x = c then [] # splitOn c xs
      else (case splitOn c xs of
              [] \<Rightarrow> [[x]]
            | p # ps \<Rightarrow> (x # p) # ps))"

definition invalidLicense :: "string \<Rightarrow> LicenseValidationResult" where
  "invalidLicense msg =
     \<lparr>valid = False, license_error = Some msg, expiresAt = None, remainingTime = None\<rparr>"

definition validateLicenseKey :: "Crypto \<Rightarrow> string \<Rightarrow> world \<Rightarrow> LicenseValidationResult \<times> world" where
  "validateLicenseKey C licenseKey w =
     (if licenseKey = [] \<or> \<not> startsWith licenseKey ''VB-''
      then (invalidLicense ''Invalid license key format'', w)
      else
        let keyPart = drop 3 licenseKey;
            parts = splitOn CHR ''.'' keyPart;
            payloadB64 = (case parts of p # ps \<Rightarrow> p | [] \<Rightarrow> []);
            signature = (case parts of p # s # ps \<Rightarrow> s | _ \<Rightarrow> [])
        in if payloadB64 = [] \<or> signature = []
           then (invalidLicense ''Malformed license key'', w)
           else if signature \<noteq> hmacSha256 C payloadB64
           then (invalidLicense ''Invalid license key signature'', w)
           else (case decodePayload C payloadB64 of
                   Inl msg \<Rightarrow> (invalidLicense ''Failed to validate license key'', w)
                 | Inr expiry \<Rightarrow>
                     let (now, w1) = Date_now w
                     in (case expiry of
                           None \<Rightarrow>
                             (\<lparr>valid = True, license_error = None, expiresAt = None,
                               remainingTime = Some ''NaNh NaNm''\<rparr>, w1)
                         | Some e \<Rightarrow>
                             if now > e
                             then (invalidLicense ''License key expired'', w1)
                             else
                               let remainingMs = e - now;
                                   remainingHours = remainingMs div (1000 * 60 * 60);
                                   remainingMinutes =
                                     (remainingMs mod (1000 * 60 * 60)) div (1000 * 60)
                               in (\<lparr>valid = True, license_error = None, expiresAt = Some e,
                                     remainingTime = Some (showInt remainingHours @ ''h ''
                                        @ showInt remainingMinutes @ ''m'')\<rparr>, w1))))"

section \<open>TradingBot\<close>

record TradingConfig =
  tokenAddress :: string
  mainWalletPrivateKey :: string
  numberOfSubWallets :: int
  buyAmount :: rat
  sessionDuration :: int
  licenseKey :: string

record TradingStats =
  cyclesCompleted :: nat
  totalVolume :: rat
  successRate :: rat
  totalFees :: rat
  uptime :: int
  startTime :: int
  lastCycleTime :: int
  activeWallets :: nat

record Bot =
  isRunning :: bool
  config :: "TradingConfig option"
  stats :: TradingStats
  botWallets :: "WalletInfo list"
  intervalId :: "nat option"
  sessionTimeoutId :: "nat option"

text \<open>
  What the bot does to the outside: the log entries and events it emits (a log entry is
  kept with its level and the fixed part of its message), the network calls it makes,
  and the tasks it schedules or starts without waiting for them.
\<close>

datatype level = Info | Warning | Error | Success

datatype effect =
    Log level string
  | StatsUpdate TradingStats
  | DistributeCall string "string list" rat
  | BalanceRead string
  | BuySwap string rat
  | SellSwap string
  | ScheduleFirstCycle
  | StartBackgroundCleanup
  | RecoverCall string "string option"
  | Network netcall

record System =
  tradingBot :: Bot
  store :: world
  effects :: "effect list"

text \<open>
  The network as the bot sees it, beyond the ledger: the result of
  \<open>walletManager.distributeToSubWallets\<close> (the only place where \<open>start\<close> transfers
  funds), whether \<open>new PublicKey(address)\<close> accepts an address, and the two swaps. A swap
  yields the error it fails with, or the fee read back (\<open>None\<close>: reading the fee throws)
  and, for a sale, the SOL received.
\<close>

record DistributeResult = Outcome +
  fundedWallets :: "string list option"

record Venue =
  distributeToSubWallets :: "string \<Rightarrow> string list \<Rightarrow> rat \<Rightarrow> DistributeResult"
  validPublicKey :: "string \<Rightarrow> bool"
  buySwap :: "string \<Rightarrow> rat \<Rightarrow> exn + rat option"
  sellSwap :: "string \<Rightarrow> exn + rat option \<times> rat"

definition resetStats :: TradingStats where
  "resetStats =
     \<lparr>cyclesCompleted = 0, totalVolume = 0, successRate = 0, totalFees = 0, uptime = 0,
      startTime = 0, lastCycleTime = 0, activeWallets = 0\<rparr>"

definition initialBot :: Bot where
  "initialBot =
     \<lparr>isRunning = False, config = None, stats = resetStats, botWallets = [],
      intervalId = None, sessionTimeoutId = None\<rparr>"

definition log_entry :: "level \<Rightarrow> string \<Rightarrow> System \<Rightarrow> System" where
  "log_entry lv message s = s\<lparr>effects := effects s @ [Log lv message]\<rparr>"

definition emit :: "effect \<Rightarrow> System \<Rightarrow> System" where
  "emit e s = s\<lparr>effects := effects s @ [e]\<rparr>"

definition setBot :: "(Bot \<Rightarrow> Bot) \<Rightarrow> System \<Rightarrow> System" where
  "setBot f s = s\<lparr>tradingBot := f (tradingBot s)\<rparr>"

text \<open>\<open>TradingBot.getWalletBalance\<close>: the balance in SOL, 0 when the read throws.\<close>

definition getWalletBalance :: "Ledger \<Rightarrow> string \<Rightarrow> System \<Rightarrow> rat \<times> System" where
  "getWalletBalance L pk s =
     ((case rpcBalance L pk of None \<Rightarrow> 0 | Some lamports \<Rightarrow> of_int lamports / 1000000000),
      emit (BalanceRead pk) s)"

text \<open>\<open>executeBuy\<close> and \<open>executeSell\<close>; the result is \<open>success\<close> with the error, if any.\<close>

definition executeBuy :: "Ledger \<Rightarrow> Venue \<Rightarrow> WalletInfo \<Rightarrow> string \<Rightarrow> rat \<Rightarrow> System \<Rightarrow> Outcome \<times> System" where
  "executeBuy L V wallet token amount s =
     (let pk = publicKey (identity wallet);
          s1 = log_entry Info ''Executing REAL token buy'' s
      in case keyError L (privateKey (identity wallet)) of
           Some msg \<Rightarrow> (\<lparr>success = False, error = Some msg\<rparr>, log_entry Error ''Buy order failed'' s1)
         | None \<Rightarrow>
            (case rpcBalance L pk of
               None \<Rightarrow>
                 (\<lparr>success = False, error = Some ''failed to get balance''\<rparr>,
                  log_entry Error ''Buy order failed'' (emit (BalanceRead pk) s1))
             | Some lamports \<Rightarrow>
                 let s2 = emit (BalanceRead pk) s1;
                     walletBalanceSOL = of_int lamports / 1000000000
                 in if walletBalanceSOL < amount + 1 / 100000
                    then (\<lparr>success = False, error = Some ''Insufficient balance''\<rparr>,
                          log_entry Error ''Buy order failed'' s2)
                    else
                      let s3 = emit (BuySwap pk (amount * (9 / 10))) s2
                      in (case buySwap V pk (amount * (9 / 10)) of
                            Inl msg \<Rightarrow>
                              (\<lparr>success = False, error = Some msg\<rparr>,
                               log_entry Error ''Jupiter swap failed'' s3)
                          | Inr fee \<Rightarrow>
                              let actualFeeSOL = (case fee of None \<Rightarrow> 35 / 1000000 | Some f \<Rightarrow> f);
                                  s4 = setBot (\<lambda>b. b\<lparr>stats := (stats b)
                                         \<lparr>totalFees := totalFees (stats b) + actualFeeSOL,
                                          totalVolume := totalVolume (stats b) + amount\<rparr>\<rparr>) s3
                              in (\<lparr>success = True, error = None\<rparr>,
                                  log_entry Success ''REAL TOKEN BUY completed'' s4))))"

definition executeSell :: "Ledger \<Rightarrow> Venue \<Rightarrow> WalletInfo \<Rightarrow> string \<Rightarrow> System \<Rightarrow> Outcome \<times> System" where
  "executeSell L V wallet token s =
     (let pk = publicKey (identity wallet);
          s1 = log_entry Info ''Executing REAL token sell'' s
      in case keyError L (privateKey (identity wallet)) of
           Some msg \<Rightarrow> (\<lparr>success = False, error = Some msg\<rparr>, log_entry Error ''Sell order failed'' s1)
         | None \<Rightarrow>
             let s2 = emit (SellSwap pk) s1
             in (case sellSwap V pk of
                   Inl msg \<Rightarrow>
                     (\<lparr>success = False, error = Some msg\<rparr>,
                      log_entry Error ''Jupiter sell swap failed'' s2)
                 | Inr (fee, sellAmountSOL) \<Rightarrow>
                     let actualFeeSOL = (case fee of None \<Rightarrow> 35 / 1000000 | Some f \<Rightarrow> f);
                         s3 = setBot (\<lambda>b. b\<lparr>stats := (stats b)
                                \<lparr>totalFees := totalFees (stats b) + actualFeeSOL,
                                 totalVolume := totalVolume (stats b) + sellAmountSOL\<rparr>\<rparr>) s2
                     in (\<lparr>success = True, error = None\<rparr>,
                         log_entry Success ''REAL TOKEN SELL completed'' s3)))"

text \<open>
  One pass of the loop of \<open>executeTradingCycle\<close> (the method repeats the pass while
  \<open>isRunning\<close> holds; nothing in the pass throws, so the \<open>catch\<close> of the loop body is
  not taken). The flag \<open>isRunning\<close> is flipped by
  \<open>stop()\<close> while the loop waits for a call; \<open>running c\<close> is the value read at the head
  of a loop iteration when \<open>c\<close> buy and sell calls of this pass have returned. The
  pauses, and the log entries announcing them, are not modelled.
\<close>

fun buyPhase :: "Ledger \<Rightarrow> Venue \<Rightarrow> string \<Rightarrow> (nat \<Rightarrow> bool) \<Rightarrow> WalletInfo list \<Rightarrow> nat
    \<Rightarrow> System \<Rightarrow> bool list \<times> System" where
  "buyPhase L V token running [] c s = ([], s)"
| "buyPhase L V token running (wallet # rest) c s =
     (if \<not> running c then ([], s)
      else
        let s1 = log_entry Info ''Processing BUY for wallet'' s;
            (currentBalance, s2) = getWalletBalance L (publicKey (identity wallet)) s1;
            tradingAmount = currentBalance * (3 / 4);
            s3 = log_entry Info ''Using 75% of the balance for trading'' s2;
            (buyResult, s4) = executeBuy L V wallet token tradingAmount s3;
            s5 = (if success buyResult then log_entry Success ''BUY successful for wallet'' s4
                  else log_entry Warning ''BUY failed for wallet'' s4);
            (more, s6) = buyPhase L V token running rest (Suc c) s5
        in (success buyResult # more, s6))"

fun sellPhase :: "Ledger \<Rightarrow> Venue \<Rightarrow> string \<Rightarrow> (nat \<Rightarrow> bool) \<Rightarrow> WalletInfo list \<Rightarrow> nat
    \<Rightarrow> System \<Rightarrow> bool list \<times> System" where
  "sellPhase L V token running [] c s = ([], s)"
| "sellPhase L V token running (wallet # rest) c s =
     (if \<not> running c then ([], s)
      else
        let s1 = log_entry Info ''Processing SELL for wallet'' s;
            (sellResult, s2) = executeSell L V wallet token s1;
            s3 = (if success sellResult then log_entry Success ''SELL successful for wallet'' s2
                  else log_entry Warning ''SELL failed for wallet'' s2);
            (more, s4) = sellPhase L V token running rest (Suc c) s3
        in (success sellResult # more, s4))"

text \<open>\<open>results[i]\<close> as a condition: an index past the end reads \<open>undefined\<close>, which is falsy.\<close>

definition truthyAt :: "bool list \<Rightarrow> nat \<Rightarrow> bool" where
  "truthyAt results i = (i < length results \<and> results ! i)"

text \<open>The loop that counts the complete cycles, from worker \<open>i\<close> on.\<close>

definition countComplete :: "bool list \<Rightarrow> bool list \<Rightarrow> nat \<Rightarrow> System \<Rightarrow> nat \<times> System" where
  "countComplete buyResults sellResults n s =
     foldl (\<lambda>(successfulTrades, s') i.
              if truthyAt buyResults i \<and> truthyAt sellResults i
              then (Suc successfulTrades, log_entry Success ''Complete buy-sell cycle for wallet'' s')
              else (successfulTrades, log_entry Warning ''Incomplete cycle for wallet'' s'))
       (0, s) [0..<n]"

definition tradingIteration :: "Ledger \<Rightarrow> Venue \<Rightarrow> string \<Rightarrow> (nat \<Rightarrow> bool) \<Rightarrow> System \<Rightarrow> System" where
  "tradingIteration L V token running s =
     (let subWallets = botWallets (tradingBot s);
          s1 = log_entry Info ''PHASE 1: Executing TOKEN BUYS sequentially for all sub-wallets...'' s;
          (buyResults, s2) = buyPhase L V token running subWallets 0 s1;
          s3 = log_entry Info ''PHASE 2: Executing TOKEN SELLS sequentially for all sub-wallets...'' s2;
          (sellResults, s4) = sellPhase L V token running subWallets (length buyResults) s3;
          (successfulTrades, s5) = countComplete buyResults sellResults (length subWallets) s4;
          (now1, w1) = Date_now (store s5);
          (now2, w2) = Date_now w1;
          s6 = s5\<lparr>store := w2,
                  tradingBot := (tradingBot s5)\<lparr>stats := (stats (tradingBot s5))
                    \<lparr>cyclesCompleted := Suc (cyclesCompleted (stats (tradingBot s5))),
                     successRate :=
                       (if length subWallets > 0
                        then (of_nat successfulTrades / of_nat (length subWallets)) * 100
                        else 0),
                     lastCycleTime := now1,
                     uptime := now2 - startTime (stats (tradingBot s5))\<rparr>\<rparr>\<rparr>;
          s7 = log_entry Info ''Continuous cycle completed'' s6
      in emit (StatsUpdate (stats (tradingBot s7))) s7)"

text \<open>\<open>stop\<close>. Nothing in its body throws, so its \<open>catch\<close> branch is not taken.\<close>

definition stop :: "System \<Rightarrow> Outcome \<times> System" where
  "stop s =
     (let s1 = log_entry Info ''Stopping trading bot...'' s;
          s2 = setBot (\<lambda>b. b\<lparr>isRunning := False\<rparr>) s1;
          s3 = (if intervalId (tradingBot s2) \<noteq> None
                then setBot (\<lambda>b. b\<lparr>intervalId := None\<rparr>) s2 else s2);
          s4 = (if sessionTimeoutId (tradingBot s3) \<noteq> None
                then setBot (\<lambda>b. b\<lparr>sessionTimeoutId := None\<rparr>) s3 else s3);
          s5 = log_entry Success ''Trading bot stopped successfully'' s4;
          s6 = emit (StatsUpdate (stats (tradingBot s5))) s5;
          s7 = (if config (tradingBot s6) \<noteq> None then emit StartBackgroundCleanup s6 else s6)
      in (\<lparr>success = True, error = None\<rparr>, s7))"

text \<open>
  \<open>cleanupFundsInBackground\<close>, the task that \<open>stop\<close> starts and does not wait for, run
  to its end (the recovery it schedules included).
\<close>

fun sellAll :: "Ledger \<Rightarrow> Venue \<Rightarrow> string \<Rightarrow> WalletInfo list \<Rightarrow> System \<Rightarrow> System" where
  "sellAll L V token [] s = s"
| "sellAll L V token (wallet # rest) s =
     (let (sellResult, s1) = executeSell L V wallet token s;
          s2 = (if success sellResult then log_entry Success ''Background: Sold tokens from wallet'' s1
                else log_entry Info ''Background: No tokens to sell from wallet'' s1)
      in sellAll L V token rest s2)"

definition cleanupFundsInBackground :: "Ledger \<Rightarrow> Venue \<Rightarrow> System \<Rightarrow> System" where
  "cleanupFundsInBackground L V s =
     (case config (tradingBot s) of
        None \<Rightarrow> s
      | Some cfg \<Rightarrow>
          let s1 = log_entry Info ''Background cleanup: Selling tokens and recovering funds...'' s;
              s2 = log_entry Info ''Step 1: Selling tokens from all sub-wallets...'' s1;
              s3 = sellAll L V (tokenAddress cfg) (botWallets (tradingBot s2)) s2;
              s4 = log_entry Info ''Token selling completed'' s3;
              s5 = log_entry Info ''Step 2: Recovering SOL from all sub-wallets...'' s4;
              s6 = emit (RecoverCall (mainWalletPrivateKey cfg) (Some (tokenAddress cfg))) s5;
              ((recoveryResult, calls), w1) =
                 recoverAllFunds L (mainWalletPrivateKey cfg) (Some (tokenAddress cfg)) (store s6);
              s7 = s6\<lparr>store := w1, effects := effects s6 @ map Network calls\<rparr>
          in if success recoveryResult then log_entry Success ''Background recovery: SOL recovered'' s7
             else log_entry Info ''Background recovery failed'' s7)"

text \<open>\<open>distributeFunds\<close>: the check of the balances after the transfer, one pass of it.\<close>

fun checkWallets :: "Ledger \<Rightarrow> rat \<Rightarrow> WalletInfo list \<Rightarrow> System \<Rightarrow> bool \<times> System" where
  "checkWallets L amount [] s = (True, s)"
| "checkWallets L amount (wallet # rest) s =
     (let (balance, s1) = getWalletBalance L (publicKey (identity wallet)) s
      in if balance < amount
         then (False, log_entry Info ''Wallet still waiting for funds'' s1)
         else checkWallets L amount rest s1)"

function pollReady :: "Ledger \<Rightarrow> rat \<Rightarrow> nat \<Rightarrow> System \<Rightarrow> bool \<times> System" where
  "pollReady L amount attempts s =
     (if attempts < 10
      then (let (allWalletsReady, s1) = checkWallets L amount (botWallets (tradingBot s)) s
            in if \<not> allWalletsReady \<and> isRunning (tradingBot s1)
               then pollReady L amount (Suc attempts) s1
               else (allWalletsReady, s1))
      else (False, s))"
  by pat_completeness auto
termination
  by (relation "measure (\<lambda>(L, amount, attempts, s). 10 - attempts)") auto

definition distributeFunds :: "Ledger \<Rightarrow> Venue \<Rightarrow> System \<Rightarrow> exn option \<times> System" where
  "distributeFunds L V s =
     (case config (tradingBot s) of
        None \<Rightarrow> (None, s)
      | Some cfg \<Rightarrow>
          let s1 = log_entry Info ''Distributing funds to sub-wallets...'' s;
              subWalletAddresses = map (\<lambda>w. publicKey (identity w)) (botWallets (tradingBot s1));
              amountPerWallet = buyAmount cfg + 1 / 100000;
              s2 = emit (DistributeCall (mainWalletPrivateKey cfg) subWalletAddresses amountPerWallet) s1;
              result = distributeToSubWallets V (mainWalletPrivateKey cfg) subWalletAddresses
                         amountPerWallet
          in if success result
                \<and> (case fundedWallets result of None \<Rightarrow> False | Some funded \<Rightarrow> funded \<noteq> [])
             then
               let s3 = log_entry Success ''Distributed SOL to sub-wallets'' s2;
                   s4 = (if length (the (fundedWallets result)) < length (botWallets (tradingBot s3))
                         then log_entry Info ''Note: some wallets funding failed'' s3 else s3);
                   s4a = (if isRunning (tradingBot s4)
                          then log_entry Info ''Waiting for funds to arrive in sub-wallets...'' s4
                          else s4);
                   (allWalletsReady, s5) = pollReady L (buyAmount cfg) 0 s4a
               in (None,
                   if allWalletsReady
                   then log_entry Success ''All sub-wallets have received funds and are ready for trading'' s5
                   else log_entry Warning ''Some wallets may not have received all funds'' s5)
             else (Some (''Fund distribution failed: ''
                          @ (case error result of None \<Rightarrow> ''undefined'' | Some msg \<Rightarrow> msg)), s2))"

definition validateToken :: "Venue \<Rightarrow> string \<Rightarrow> System \<Rightarrow> exn option \<times> System" where
  "validateToken V address s =
     (if validPublicKey V address then (None, log_entry Info ''Token validated'' s)
      else (Some (''Invalid token address: '' @ address), s))"

text \<open>The wallets \<open>start\<close> builds from the existing sub-wallets.\<close>

definition bareWallet :: "WalletInfo \<Rightarrow> WalletInfo" where
  "bareWallet wallet =
     \<lparr>identity = \<lparr>publicKey = publicKey (identity wallet), privateKey = privateKey (identity wallet),
                   createdAt = None, index = None\<rparr>,
      balance = balance wallet, info_backupFile = None\<rparr>"

text \<open>
  A call of \<open>createSubWallets\<close> from \<open>start\<close> whose wallets, if any, are appended to the
  wallets of the bot, as the two attempts to grow the set do.
\<close>

definition growWallets :: "int \<Rightarrow> string \<Rightarrow> System \<Rightarrow> System" where
  "growWallets needed failure s =
     (let (result, w1) = createSubWallets needed (store s);
          s1 = s\<lparr>store := w1\<rparr>
      in case wallets result of
           Some ws \<Rightarrow>
             if success result
             then setBot (\<lambda>b. b\<lparr>botWallets := botWallets b @ ws\<rparr>) s1
             else log_entry Error failure s1
         | None \<Rightarrow> log_entry Error failure s1)"

text \<open>The part of \<open>start\<close> that resolves the worker wallets.\<close>

definition resolveWallets :: "TradingConfig \<Rightarrow> System \<Rightarrow> exn option \<times> System" where
  "resolveWallets cfg s =
     (let s0 = log_entry Info ''Collecting all sub-wallets from backup files...'' s;
          (allWallets, w1) = getAllWallets (store s0);
          s1 = s0\<lparr>store := w1\<rparr>
      in if all_subWallets allWallets = []
         then
           let s2 = log_entry Info ''No existing sub-wallets found, creating new ones...'' s1;
               (subWalletsResult, w2) = createSubWallets (numberOfSubWallets cfg) (store s2);
               s3 = s2\<lparr>store := w2\<rparr>
           in (case wallets subWalletsResult of
                 Some ws \<Rightarrow>
                   if success subWalletsResult
                   then (None, setBot (\<lambda>b. b\<lparr>botWallets := ws\<rparr>) s3)
                   else (Some (case error subWalletsResult of
                                 None \<Rightarrow> ''Failed to create sub-wallets''
                               | Some msg \<Rightarrow> if msg = [] then ''Failed to create sub-wallets'' else msg),
                         s3)
               | None \<Rightarrow>
                   (Some (case error subWalletsResult of
                            None \<Rightarrow> ''Failed to create sub-wallets''
                          | Some msg \<Rightarrow> if msg = [] then ''Failed to create sub-wallets'' else msg),
                    s3))
         else
           let s2 = setBot (\<lambda>b. b\<lparr>botWallets := map bareWallet (all_subWallets allWallets)\<rparr>) s1;
               s3 = log_entry Info ''Found existing sub-wallets from backup files'' s2
           in if int (length (botWallets (tradingBot s3))) < numberOfSubWallets cfg
              then
                let additionalNeeded =
                      numberOfSubWallets cfg - int (length (botWallets (tradingBot s3)));
                    s4 = log_entry Info ''Creating additional sub-wallets...'' s3
                in (None, growWallets additionalNeeded ''Failed to create additional wallets'' s4)
              else (None, s3))"

definition failStart :: "string \<Rightarrow> System \<Rightarrow> Outcome \<times> System" where
  "failStart msg s =
     (\<lparr>success = False, error = Some msg\<rparr>,
      log_entry Error ''Failed to start trading bot''
        (setBot (\<lambda>b. b\<lparr>isRunning := False\<rparr>) s))"

text \<open>\<open>start\<close>, from the final check of the number of wallets on.\<close>

definition startWithWallets :: "Ledger \<Rightarrow> Venue \<Rightarrow> TradingConfig \<Rightarrow> System \<Rightarrow> Outcome \<times> System" where
  "startWithWallets L V cfg s6 =
     (let s7 =
            (if int (length (botWallets (tradingBot s6))) \<noteq> numberOfSubWallets cfg
             then
               let s6a = log_entry Warning ''Unexpected number of wallets'' s6
               in if int (length (botWallets (tradingBot s6a))) < numberOfSubWallets cfg
                  then growWallets
                         (numberOfSubWallets cfg - int (length (botWallets (tradingBot s6a))))
                         ''Retry failed''
                         (log_entry Info ''Attempting to create more wallets...'' s6a)
                  else s6a
             else s6);
          s8 = setBot (\<lambda>b. b\<lparr>stats := (stats b)\<lparr>activeWallets := length (botWallets b)\<rparr>\<rparr>) s7;
          s9 = log_entry Info ''Using sub-wallets for trading'' s8
      in case distributeFunds L V s9 of
           (Some msg, s10) \<Rightarrow> failStart msg s10
         | (None, s10) \<Rightarrow>
             (case validateToken V (tokenAddress cfg) s10 of
                (Some msg, s11) \<Rightarrow> failStart msg s11
              | (None, s11) \<Rightarrow>
                  let s12 = setBot (\<lambda>b. b\<lparr>isRunning := True\<rparr>) s11;
                      s13 = log_entry Info ''Starting continuous trading...'' s12;
                      s14 = emit ScheduleFirstCycle s13;
                      s15 = log_entry Success ''Trading bot started successfully'' s14;
                      s16 = emit (StatsUpdate (stats (tradingBot s15))) s15
                  in (\<lparr>success = True, error = None\<rparr>, s16)))"

text \<open>\<open>start\<close>, once the license has been accepted.\<close>

definition startLicensed :: "Ledger \<Rightarrow> Venue \<Rightarrow> TradingConfig \<Rightarrow> System \<Rightarrow> Outcome \<times> System" where
  "startLicensed L V cfg s1 =
     (let s2 = log_entry Success ''License valid'' s1;
          (now, w2) = Date_now (store s2);
          s3 = s2\<lparr>store := w2,
                  tradingBot := (tradingBot s2)\<lparr>config := Some cfg,
                                   stats := resetStats\<lparr>startTime := now\<rparr>\<rparr>\<rparr>;
          s4 = log_entry Info ''Starting trading bot...'' s3
      in case keyError L (mainWalletPrivateKey cfg) of
           Some msg \<Rightarrow> failStart msg s4
         | None \<Rightarrow>
             (case resolveWallets cfg (log_entry Info ''Main wallet'' s4) of
                (Some msg, s6) \<Rightarrow> failStart msg s6
              | (None, s6) \<Rightarrow> startWithWallets L V cfg s6))"

definition start :: "Crypto \<Rightarrow> Ledger \<Rightarrow> Venue \<Rightarrow> TradingConfig \<Rightarrow> System \<Rightarrow> Outcome \<times> System" where
  "start C L V cfg s =
     (if isRunning (tradingBot s)
      then (\<lparr>success = False, error = Some ''Bot is already running''\<rparr>, s)
      else
        let (licenseValidation, w1) = validateLicenseKey C (licenseKey cfg) (store s);
            s1 = s\<lparr>store := w1\<rparr>
        in if \<not> valid licenseValidation
           then (\<lparr>success = False,
                  error = Some (''Invalid license: ''
                     @ (case license_error licenseValidation of
                          None \<Rightarrow> ''undefined'' | Some msg \<Rightarrow> msg))\<rparr>,
                 log_entry Error ''License validation failed'' s1)
           else startLicensed L V cfg s1)"

section \<open>Auxiliary notions for the statements\<close>

text \<open>The keys the two deduplications compare.\<close>

definition mainKey :: "Identity option Entry \<Rightarrow> string option" where
  "mainKey e = map_option publicKey (item e)"

definition subKey :: "SubWallet Entry \<Rightarrow> string" where
  "subKey e = publicKey (item e)"

text \<open>An index is a first occurrence of its key (used to describe \<open>uniqueByKey\<close>).\<close>

definition firstAt :: "('a \<Rightarrow> 'k) \<Rightarrow> 'a list \<Rightarrow> nat \<Rightarrow> bool" where
  "firstAt key xs i = (i < length xs \<and> (\<forall>j<i. key (xs ! j) \<noteq> key (xs ! i)))"

text \<open>Two worlds that differ at most in the number of clock readings taken.\<close>

definition sameButTick :: "world \<Rightarrow> world \<Rightarrow> bool" where
  "sameButTick w w' = (\<exists>t. w' = w\<lparr>tick := t\<rparr>)"


text \<open>
  What the buy call and the sell call of a pass report for a wallet. The report of a
  call does not depend on the state of the bot (lemmas \<open>executeBuy_report\<close> and
  \<open>executeSell_report\<close>), so it is read off a call in a fixed state.
\<close>

definition nullSystem :: System where
  "nullSystem =
     \<lparr>tradingBot = initialBot,
      store = \<lparr>files = [], clock = (\<lambda>n. 0), tick = 0, keygen = (\<lambda>n. ([], [])),
                minted = 0, diskError = None\<rparr>,
      effects = []\<rparr>"

definition buyReports :: "Ledger \<Rightarrow> Venue \<Rightarrow> string \<Rightarrow> WalletInfo \<Rightarrow> bool" where
  "buyReports L V token wallet =
     success (fst (executeBuy L V wallet token
        (fst (getWalletBalance L (publicKey (identity wallet)) nullSystem) * (3 / 4)) nullSystem))"

definition sellReports :: "Ledger \<Rightarrow> Venue \<Rightarrow> string \<Rightarrow> WalletInfo \<Rightarrow> bool" where
  "sellReports L V token wallet = success (fst (executeSell L V wallet token nullSystem))"

text \<open>
  The number of calls a phase over \<open>n\<close> wallets makes when it starts with \<open>c\<close> calls
  of the pass done: it stops at the first read of the flag that finds it false.
\<close>

fun callsMade :: "(nat \<Rightarrow> bool) \<Rightarrow> nat \<Rightarrow> nat \<Rightarrow> nat" where
  "callsMade running c 0 = 0"
| "callsMade running c (Suc k) =
     (if running c then Suc (callsMade running (Suc c) k) else 0)"

text \<open>
  What the listing depends on, read off the stored contents: the stored snapshots that
  \<open>getBackupFiles\<close> lists, the public keys of their sub-wallets, the snapshots that
  pass as new format without \<open>subWallets\<close>, and the snapshots whose timestamp does not
  come from the clock.
\<close>

definition rawSubKeys :: "RawBackup \<Rightarrow> string set" where
  "rawSubKeys raw = publicKey ` set (case raw_subWallets raw of None \<Rightarrow> [] | Some ws \<Rightarrow> ws)"

definition rawLacksSubWallets :: "RawBackup \<Rightarrow> bool" where
  "rawLacksSubWallets raw =
     (raw_metadata raw \<noteq> None \<and> truthyNum (raw_timestamp raw) \<and> truthyMain (raw_mainWallet raw)
      \<and> raw_subWallets raw = None)"

definition stamped :: "RawBackup \<Rightarrow> bool" where
  "stamped raw = (truthyNum (raw_timestamp raw) \<or> truthyNum (raw_createdAt raw))"

definition allStamped :: "world \<Rightarrow> bool" where
  "allStamped w = (\<forall>(name, content) \<in> set (files w). case content of None \<Rightarrow> True | Some raw \<Rightarrow> stamped raw)"


fun listedRaws :: "(string \<times> RawBackup option) list \<Rightarrow> RawBackup list" where
  "listedRaws [] = []"
| "listedRaws ((name, content) # rest) =
     (if startsWith name ''wallets-'' \<and> endsWith name ''.json''
      then (case content of None \<Rightarrow> listedRaws rest | Some raw \<Rightarrow> raw # listedRaws rest)
      else listedRaws rest)"

text \<open>The checks of the owner's key that \<open>recoverAllFunds\<close> makes before anything else.\<close>

definition structurallyInvalid :: "Ledger \<Rightarrow> string \<Rightarrow> bool" where
  "structurallyInvalid L key = (key = [] \<or> length key < 50 \<or> keyError L key \<noteq> None)"

text \<open>What one wallet contributes when it is processed on its own.\<close>

definition walletCalls :: "Ledger \<Rightarrow> string option \<Rightarrow> WalletInfo \<Rightarrow> netcall list" where
  "walletCalls L token wallet =
     snd (snd (recoverWallet L token wallet ([], 0, [])))"

definition walletTransactions :: "Ledger \<Rightarrow> string option \<Rightarrow> WalletInfo \<Rightarrow> string list" where
  "walletTransactions L token wallet =
     fst (recoverWallet L token wallet ([], 0, []))"

definition walletRecovered :: "Ledger \<Rightarrow> string option \<Rightarrow> WalletInfo \<Rightarrow> rat" where
  "walletRecovered L token wallet =
     fst (snd (recoverWallet L token wallet ([], 0, [])))"


text \<open>The transfers of funds among the effects.\<close>

fun isTransferCall :: "effect \<Rightarrow> bool" where
  "isTransferCall (DistributeCall key addresses amount) = True"
| "isTransferCall (Network (Transfer pk lamports)) = True"
| "isTransferCall e = False"

text \<open>The calls to the network among the effects.\<close>

fun isNetworkEffect :: "effect \<Rightarrow> bool" where
  "isNetworkEffect (Log lv message) = False"
| "isNetworkEffect (StatsUpdate st) = False"
| "isNetworkEffect ScheduleFirstCycle = False"
| "isNetworkEffect StartBackgroundCleanup = False"
| "isNetworkEffect e = True"

section \<open>Example stores\<close>

text \<open>
  Three snapshots as \<open>createBackup\<close> writes them (no main wallet), an unrelated file
  and an unparseable snapshot; keys \<open>A\<close> and \<open>B\<close> occur twice.
\<close>

definition sw :: "string \<Rightarrow> string \<Rightarrow> int \<Rightarrow> int \<Rightarrow> SubWallet" where
  "sw pk sk c i = \<lparr>publicKey = pk, privateKey = sk, createdAt = Some c, index = Some i\<rparr>"

definition storedSnapshot :: "int \<Rightarrow> SubWallet list \<Rightarrow> RawBackup" where
  "storedSnapshot ts ws =
     \<lparr>raw_metadata = Some \<lparr>version = ''1.0.0'', createdBy = ''solana-volume-bot'',
                            totalWallets = int (length ws)\<rparr>,
      raw_timestamp = Some ts, raw_createdAt = None, raw_mainWallet = MainUndefined,
      raw_subWallets = Some ws, raw_version = None\<rparr>"

definition exampleWorld :: world where
  "exampleWorld =
     \<lparr>files = [(''wallets-100.json'', Some (storedSnapshot 100 [sw ''A'' ''a1'' 100 0, sw ''B'' ''b1'' 100 1])),
               (''notes.txt'', None),
               (''wallets-300.json'', Some (storedSnapshot 300 [sw ''A'' ''a3'' 300 0])),
               (''wallets-150.json'', None),
               (''wallets-200.json'', Some (storedSnapshot 200 [sw ''B'' ''b2'' 200 0, sw ''C'' ''c2'' 200 1]))],
      clock = (\<lambda>n. 1000 + int n), tick = 0,
      keygen = (\<lambda>n. (''K'' @ showNat n, ''S'' @ showNat n)), minted = 0,
      diskError = None\<rparr>"

definition exampleView :: Reconciled where
  "exampleView =
     \<lparr>mainWallets = [\<lparr>item = Some (placeholderMainWallet 300), backupFile = ''wallets-300.json'', sourceTimestamp = 300\<rparr>],
      reconciledSubWallets =
        [\<lparr>item = sw ''A'' ''a3'' 300 0, backupFile = ''wallets-300.json'', sourceTimestamp = 300\<rparr>,
         \<lparr>item = sw ''B'' ''b2'' 200 0, backupFile = ''wallets-200.json'', sourceTimestamp = 200\<rparr>,
         \<lparr>item = sw ''C'' ''c2'' 200 1, backupFile = ''wallets-200.json'', sourceTimestamp = 200\<rparr>]\<rparr>"

text \<open>
  Two legacy snapshots without \<open>timestamp\<close> and \<open>createdAt\<close>, and a clock whose first
  two readings fall into the same millisecond.
\<close>

definition legacySnapshot :: "string \<Rightarrow> string \<Rightarrow> RawBackup" where
  "legacySnapshot pk sk =
     \<lparr>raw_metadata = None, raw_timestamp = None, raw_createdAt = None,
      raw_mainWallet = MainUndefined,
      raw_subWallets = Some [\<lparr>publicKey = pk, privateKey = sk, createdAt = None, index = None\<rparr>],
      raw_version = None\<rparr>"

definition legacyWorld :: world where
  "legacyWorld =
     \<lparr>files = [(''wallets-a.json'', Some (legacySnapshot ''A'' ''a'')),
               (''wallets-b.json'', Some (legacySnapshot ''B'' ''b''))],
      clock = (\<lambda>n. if n < 2 then 1000 else 999 + int n), tick = 0,
      keygen = (\<lambda>n. (''K'' @ showNat n, ''S'' @ showNat n)), minted = 0,
      diskError = None\<rparr>"


definition legacyFirst :: "WalletInfo list" where
  "legacyFirst = [\<lparr>identity = \<lparr>publicKey = ''A'', privateKey = ''a'', createdAt = Some 1000, index = Some 0\<rparr>,
           balance = 0, info_backupFile = Some ''wallets-a.json''\<rparr>]"
definition legacySecond :: "WalletInfo list" where
  "legacySecond = [\<lparr>identity = \<lparr>publicKey = ''B'', privateKey = ''b'', createdAt = Some 1002, index = Some 0\<rparr>,
           balance = 0, info_backupFile = Some ''wallets-b.json''\<rparr>]"


definition legacyView :: Reconciled where
  "legacyView =
     \<lparr>mainWallets = [\<lparr>item = Some (placeholderMainWallet 1000), backupFile = ''wallets-a.json'', sourceTimestamp = 1000\<rparr>],
      reconciledSubWallets =
        [\<lparr>item = sw ''A'' ''a'' 1000 0, backupFile = ''wallets-a.json'', sourceTimestamp = 1000\<rparr>,
         \<lparr>item = sw ''B'' ''b'' 1000 0, backupFile = ''wallets-b.json'', sourceTimestamp = 1000\<rparr>]\<rparr>"



text \<open>
  A store with one legacy snapshot whose \<open>mainWallet\<close> is a string, as in
  \<open>{"timestamp": 50, "mainWallet": "9q36...", "subWallets": []}\<close>.
\<close>

definition strayMainWorld :: world where
  "strayMainWorld =
     \<lparr>files = [(''wallets-50.json'',
                 Some \<lparr>raw_metadata = None, raw_timestamp = Some 50, raw_createdAt = None,
                       raw_mainWallet = MainOther, raw_subWallets = Some [],
                       raw_version = None\<rparr>)],
      clock = (\<lambda>n. 1000 + int n), tick = 0,
      keygen = (\<lambda>n. (''K'' @ showNat n, ''S'' @ showNat n)), minted = 0,
      diskError = None\<rparr>"

section \<open>Example ledgers\<close>

text \<open>
  A ledger for the example store: the key of \<open>B\<close> cannot be decoded, \<open>A\<close> holds
  5000000 lamports and \<open>C\<close> 2000000.
\<close>

definition ownerKey :: string where
  "ownerKey = ''5J3mBbAH58CpQ3Y5RNJpUKPE62SQ5tfcvU2JpbnkeyhfsYB1Jcn5J3mBbAH58CpQ3Y5RNJpUKPE62SQ5tfcvU2Jp''"


text \<open>
  A ledger on which no worker holds more than the dust threshold (\<open>A\<close> holds exactly
  1000 lamports), and which accepts secret keys of 88 characters and the short keys of
  the example workers.
\<close>

definition emptyLedger :: Ledger where
  "emptyLedger =
     \<lparr>keyError = (\<lambda>k. if length k = 88 \<or> length k = 2 then None else Some ''bad secret key size''),
      rpcBalance = (\<lambda>pk. if pk = ''A'' then Some 1000 else Some 0),
      tokenSale = (\<lambda>pk token. None),
      submitTransfer = (\<lambda>pk lamports. Inr (''sig-'' @ pk))\<rparr>"

section \<open>An example bot\<close>

text \<open>
  A license scheme for the examples (the signature of a payload is the payload
  reversed; the payload \<open>old\<close> expired at 500, every other payload expires at 5000), a
  ledger on which every key decodes and every wallet holds 5000000 lamports, a venue on
  which every swap succeeds except the sale for worker \<open>C\<close>, and a venue that
  refuses to distribute.
\<close>

definition exampleCrypto :: Crypto where
  "exampleCrypto =
     \<lparr>hmacSha256 = rev,
      decodePayload = (\<lambda>p. if p = ''old'' then Inr (Some 500) else Inr (Some 5000))\<rparr>"

definition tradeLedger :: Ledger where
  "tradeLedger =
     \<lparr>keyError = (\<lambda>k. None),
      rpcBalance = (\<lambda>pk. Some 5000000),
      tokenSale = (\<lambda>pk token. None),
      submitTransfer = (\<lambda>pk lamports. Inr (''sig-'' @ pk))\<rparr>"

definition tradeVenue :: Venue where
  "tradeVenue =
     \<lparr>distributeToSubWallets =
        (\<lambda>key addresses amount. \<lparr>success = True, error = None, fundedWallets = Some addresses\<rparr>),
      validPublicKey = (\<lambda>a. True),
      buySwap = (\<lambda>pk amount. Inr (Some (1 / 200000))),
      sellSwap = (\<lambda>pk. if pk = ''C'' then Inl ''No tokens to sell'' else Inr (None, 3 / 1000))\<rparr>"

definition brokeVenue :: Venue where
  "brokeVenue =
     tradeVenue\<lparr>distributeToSubWallets :=
        (\<lambda>key addresses amount.
           \<lparr>success = False, error = Some ''Insufficient balance'', fundedWallets = None\<rparr>)\<rparr>"

definition exampleConfig :: TradingConfig where
  "exampleConfig =
     \<lparr>tokenAddress = ''Tok'', mainWalletPrivateKey = ownerKey, numberOfSubWallets = 3,
      buyAmount = 1 / 100, sessionDuration = 60, licenseKey = ''VB-fresh.hserf''\<rparr>"

definition freshSystem :: System where
  "freshSystem = \<lparr>tradingBot = initialBot, store = exampleWorld, effects = []\<rparr>"

text \<open>A bot in the middle of a session with the three example workers.\<close>

definition tradingSystem :: System where
  "tradingSystem =
     \<lparr>tradingBot = \<lparr>isRunning = True, config = Some exampleConfig,
                     stats = resetStats\<lparr>cyclesCompleted := 7, successRate := 100, startTime := 900\<rparr>,
                     botWallets = map infoNoFile
                        [sw ''A'' ''a3'' 300 0, sw ''B'' ''b2'' 200 0, sw ''C'' ''c2'' 200 1],
                     intervalId = None, sessionTimeoutId = None\<rparr>,
      store = exampleWorld, effects = []\<rparr>"

text \<open>
  The bot after a \<open>start\<close> that failed when the funds were to be distributed (lemma
  \<open>idleWithConfig_reached\<close>): it is not running and holds the configuration.
\<close>

definition idleWithConfig :: System where
  "idleWithConfig =
     \<lparr>tradingBot =
        \<lparr>isRunning = False, config = Some exampleConfig,
         stats = resetStats\<lparr>startTime := 1001, activeWallets := 3\<rparr>,
         botWallets = map (bareWallet \<circ> infoNoFile)
            [sw ''A'' ''a3'' 300 0, sw ''B'' ''b2'' 200 0, sw ''C'' ''c2'' 200 1],
         intervalId = None, sessionTimeoutId = None\<rparr>,
      store = exampleWorld\<lparr>tick := 2\<rparr>,
      effects = [Log Error ''Failed to start trading bot'']\<rparr>"

text \<open>The example configuration with a license that has expired.\<close>

definition expiredConfig :: TradingConfig where
  "expiredConfig = exampleConfig\<lparr>licenseKey := ''VB-old.dlo''\<rparr>"

section \<open>Deduplication by first occurrence\<close>

lemma findIndex_Some_iff:
  "findIndex p xs = Some i \<longleftrightarrow> i < length xs \<and> p (xs ! i) \<and> (\<forall>j<i. \<not> p (xs ! j))"
proof (induction xs arbitrary: i)
  case Nil
  then show ?case by simp
next
  case (Cons x xs)
  show ?case
  proof (cases "p x")
    case True
    then show ?thesis by (cases i) auto
  next
    case False
    show ?thesis
    proof (cases i)
      case 0
      with False show ?thesis by auto
    next
      case (Suc k)
      have "(\<forall>j<Suc k. \<not> p ((x # xs) ! j)) \<longleftrightarrow> (\<forall>j<k. \<not> p (xs ! j))"
        using False by (auto simp: less_Suc_eq_0_disj)
      with False Suc Cons.IH[of k] show ?thesis by auto
    qed
  qed
qed

lemma uniqueByKey_firstAt:
  "uniqueByKey key xs = map (\<lambda>i. xs ! i) (filter (firstAt key xs) [0..<length xs])"
  unfolding uniqueByKey_def firstAt_def
  by (rule arg_cong[where f = "map (\<lambda>i. xs ! i)"], rule filter_cong) (auto simp: findIndex_Some_iff)

lemma set_uniqueByKey:
  "set (uniqueByKey key xs) = {xs ! i | i. firstAt key xs i}"
  by (auto simp: uniqueByKey_firstAt firstAt_def)

lemma uniqueByKey_subset: "set (uniqueByKey key xs) \<subseteq> set xs"
  by (auto simp: set_uniqueByKey firstAt_def)

lemma exists_firstAt:
  assumes "x \<in> set xs"
  shows "\<exists>i. firstAt key xs i \<and> key (xs ! i) = key x"
proof -
  define P where "P = (\<lambda>i. i < length xs \<and> key (xs ! i) = key x)"
  from assms obtain k where "P k" by (auto simp: in_set_conv_nth P_def)
  define m where "m = (LEAST i. P i)"
  have "P m" unfolding m_def using \<open>P k\<close> by (rule LeastI)
  have "\<And>j. j < m \<Longrightarrow> \<not> P j" unfolding m_def by (rule not_less_Least)
  with \<open>P m\<close> have "firstAt key xs m" unfolding firstAt_def P_def
    by (metis less_trans)
  with \<open>P m\<close> show ?thesis by (auto simp: P_def)
qed

lemma keys_uniqueByKey: "key ` set (uniqueByKey key xs) = key ` set xs"
proof
  show "key ` set (uniqueByKey key xs) \<subseteq> key ` set xs"
    using uniqueByKey_subset[of key xs] by auto
  show "key ` set xs \<subseteq> key ` set (uniqueByKey key xs)"
  proof
    fix k assume "k \<in> key ` set xs"
    then obtain x where "x \<in> set xs" "k = key x" by auto
    from exists_firstAt[OF this(1), of key] obtain i where "firstAt key xs i" "key (xs ! i) = key x" by auto
    then have "xs ! i \<in> set (uniqueByKey key xs)" by (auto simp: set_uniqueByKey)
    with \<open>key (xs ! i) = key x\<close> \<open>k = key x\<close> show "k \<in> key ` set (uniqueByKey key xs)"
      by (metis imageI)
  qed
qed

lemma distinct_uniqueByKey: "distinct (map key (uniqueByKey key xs))"
proof -
  have "inj_on (\<lambda>i. key (xs ! i)) {i. firstAt key xs i}"
  proof (rule inj_onI)
    fix i j assume "i \<in> {i. firstAt key xs i}" "j \<in> {i. firstAt key xs i}"
      and eq: "key (xs ! i) = key (xs ! j)"
    then have "\<not> i < j" "\<not> j < i" by (auto simp: firstAt_def)
    then show "i = j" by simp
  qed
  then have "inj_on (\<lambda>i. key (xs ! i)) (set (filter (firstAt key xs) [0..<length xs]))"
    by (rule inj_on_subset) auto
  then show ?thesis
    by (simp add: uniqueByKey_firstAt distinct_map comp_def)
qed

lemma length_uniqueByKey: "length (uniqueByKey key xs) = card (key ` set xs)"
proof -
  have "length (uniqueByKey key xs) = length (map key (uniqueByKey key xs))" by simp
  also have "\<dots> = card (set (map key (uniqueByKey key xs)))"
    using distinct_uniqueByKey[of key xs] by (simp only: distinct_card)
  also have "\<dots> = card (key ` set xs)" by (simp add: keys_uniqueByKey)
  finally show ?thesis .
qed

lemma uniqueByKey_first:
  assumes "r \<in> set (uniqueByKey key xs)"
  shows "\<exists>i. i < length xs \<and> r = xs ! i \<and> (\<forall>j < length xs. key (xs ! j) = key r \<longrightarrow> i \<le> j)"
proof -
  from assms obtain i where "firstAt key xs i" "r = xs ! i" by (auto simp: set_uniqueByKey)
  then show ?thesis unfolding firstAt_def by (metis not_less)
qed

section \<open>Reconciliation: one record per key, the newest snapshot wins\<close>

lemma sorted_concat_entries:
  assumes "sorted (map (\<lambda>f. - file_timestamp f) fs)"
    and "\<And>f e. e \<in> set (ent f) \<Longrightarrow> sourceTimestamp e = file_timestamp f"
  shows "sorted (map (\<lambda>e. - sourceTimestamp e) (concat (map ent fs)))"
  using assms(1)
proof (induction fs)
  case Nil
  then show ?case by simp
next
  case (Cons f fs)
  have own: "sorted (map (\<lambda>e. - sourceTimestamp e) (ent f))"
    using assms(2)[of _ f] by (simp add: sorted_wrt_iff_nth_less sorted_wrt_map)
  have rest: "sorted (map (\<lambda>e. - sourceTimestamp e) (concat (map ent fs)))"
    using Cons by simp
  have cross: "\<forall>a\<in>set (ent f). \<forall>g\<in>set fs. \<forall>b\<in>set (ent g). sourceTimestamp b \<le> sourceTimestamp a"
    using Cons.prems assms(2) by fastforce
  show ?case using own rest cross by (auto simp: sorted_append)
qed

lemma first_occurrence_is_newest:
  assumes srt: "sorted (map (\<lambda>e. - sourceTimestamp e) flat)"
    and r: "r \<in> set (uniqueByKey key flat)"
    and e: "e \<in> set flat" and k: "key e = key r"
  shows "sourceTimestamp e \<le> sourceTimestamp r"
proof -
  from uniqueByKey_first[OF r] obtain i where
    i: "i < length flat" "r = flat ! i" "\<forall>j < length flat. key (flat ! j) = key r \<longrightarrow> i \<le> j"
    by blast
  from e obtain j where j: "j < length flat" "e = flat ! j" by (auto simp: in_set_conv_nth)
  with i k have "i \<le> j" by auto
  with srt j(1) have "map (\<lambda>e. - sourceTimestamp e) flat ! i \<le> map (\<lambda>e. - sourceTimestamp e) flat ! j"
    by (simp add: sorted_nth_mono del: nth_map)
  with i j show ?thesis by simp
qed

lemma subEntries_timestamp: "e \<in> set (subEntries f) \<Longrightarrow> sourceTimestamp e = file_timestamp f"
  by (auto simp: subEntries_def split: option.splits)

lemma mainEntries_timestamp: "e \<in> set (mainEntries f) \<Longrightarrow> sourceTimestamp e = file_timestamp f"
  by (auto simp: mainEntries_def split: MainSlot.splits)

lemma sorted_listing: "sorted (map (\<lambda>f. - file_timestamp f) (fst (getBackupFiles w)))"
  by (simp add: getBackupFiles_def sortNewestFirst_def split: prod.splits)

lemma reconciled_entries:
  assumes srt: "sorted (map (\<lambda>f. - file_timestamp f) fs)"
    and ts: "\<And>f e. e \<in> set (ent f) \<Longrightarrow> sourceTimestamp e = file_timestamp f"
  shows "distinct (map key (uniqueByKey key (concat (map ent fs))))
     \<and> length (uniqueByKey key (concat (map ent fs))) = card (\<Union>f\<in>set fs. key ` set (ent f))
     \<and> (\<forall>r\<in>set (uniqueByKey key (concat (map ent fs))).
          \<exists>f\<in>set fs. r \<in> set (ent f) \<and>
            (\<forall>g\<in>set fs. key r \<in> key ` set (ent g) \<longrightarrow> file_timestamp g \<le> file_timestamp f))"
proof (intro conjI ballI)
  let ?flat = "concat (map ent fs)"
  show "distinct (map key (uniqueByKey key ?flat))" by (rule distinct_uniqueByKey)
  have "key ` set ?flat = (\<Union>f\<in>set fs. key ` set (ent f))" by auto
  then show "length (uniqueByKey key ?flat) = card (\<Union>f\<in>set fs. key ` set (ent f))"
    by (simp only: length_uniqueByKey)
  fix r assume r: "r \<in> set (uniqueByKey key ?flat)"
  then have "r \<in> set ?flat" using uniqueByKey_subset by fastforce
  then obtain f where f: "f \<in> set fs" "r \<in> set (ent f)" by auto
  have srt': "sorted (map (\<lambda>e. - sourceTimestamp e) ?flat)"
    using srt ts by (rule sorted_concat_entries)
  have "\<forall>g\<in>set fs. key r \<in> key ` set (ent g) \<longrightarrow> file_timestamp g \<le> file_timestamp f"
  proof (intro ballI impI)
    fix g assume g: "g \<in> set fs" "key r \<in> key ` set (ent g)"
    then obtain e where e: "e \<in> set (ent g)" "key e = key r" by auto
    with g have "e \<in> set ?flat" by auto
    from first_occurrence_is_newest[OF srt' r this e(2)]
    show "file_timestamp g \<le> file_timestamp f" using ts[OF e(1)] ts[OF f(2)] by simp
  qed
  with f show "\<exists>f\<in>set fs. r \<in> set (ent f) \<and>
            (\<forall>g\<in>set fs. key r \<in> key ` set (ent g) \<longrightarrow> file_timestamp g \<le> file_timestamp f)"
    by blast
qed

lemma reconciled_lists:
  assumes "fst (getAllWalletsFromBackups w) = Inr view"
  shows "reconciledSubWallets view
           = uniqueByKey subKey (concat (map subEntries (fst (getBackupFiles w))))"
    and "mainWallets view
           = uniqueByKey mainKey (concat (map mainEntries (fst (getBackupFiles w))))"
proof -
  from assms have "reconcile (fst (getBackupFiles w)) = Inr view"
    by (simp add: getAllWalletsFromBackups_def split: prod.splits)
  then show "reconciledSubWallets view
           = uniqueByKey subKey (concat (map subEntries (fst (getBackupFiles w))))"
    and "mainWallets view
           = uniqueByKey mainKey (concat (map mainEntries (fst (getBackupFiles w))))"
    by (auto simp: reconcile_def subKey_def[abs_def] mainKey_def[abs_def] split: if_splits)
qed

text \<open>
  C1. For every store, when \<open>getAllWalletsFromBackups\<close> returns, the reconciled
  sub-wallets (and likewise the reconciled main wallets) hold exactly one record per
  distinct public key of the listed snapshots: the keys of the result are pairwise
  distinct and its length is the number of distinct keys over all listed files. Every
  retained record is an occurrence in a listed snapshot whose timestamp is greatest
  among the listed snapshots that contain the key.
\<close>

theorem reconcile_one_record_per_key_newest_wins:
  assumes "fst (getAllWalletsFromBackups w) = Inr view"
  shows "distinct (map subKey (reconciledSubWallets view))
     \<and> length (reconciledSubWallets view)
         = card (\<Union>f\<in>set (fst (getBackupFiles w)). subKey ` set (subEntries f))
     \<and> (\<forall>r\<in>set (reconciledSubWallets view).
          \<exists>f\<in>set (fst (getBackupFiles w)). r \<in> set (subEntries f) \<and>
            (\<forall>g\<in>set (fst (getBackupFiles w)).
               subKey r \<in> subKey ` set (subEntries g) \<longrightarrow> file_timestamp g \<le> file_timestamp f))
     \<and> distinct (map mainKey (mainWallets view))
     \<and> length (mainWallets view)
         = card (\<Union>f\<in>set (fst (getBackupFiles w)). mainKey ` set (mainEntries f))
     \<and> (\<forall>r\<in>set (mainWallets view).
          \<exists>f\<in>set (fst (getBackupFiles w)). r \<in> set (mainEntries f) \<and>
            (\<forall>g\<in>set (fst (getBackupFiles w)).
               mainKey r \<in> mainKey ` set (mainEntries g) \<longrightarrow> file_timestamp g \<le> file_timestamp f))"
proof -
  note s = reconciled_entries[where ent = subEntries and key = subKey,
      OF sorted_listing subEntries_timestamp, of w]
  note m = reconciled_entries[where ent = mainEntries and key = mainKey,
      OF sorted_listing mainEntries_timestamp, of w]
  from s m show ?thesis unfolding reconciled_lists[OF assms] by blast
qed

theorem reconcile_one_record_per_key_newest_wins_witness:
  "fst (getAllWalletsFromBackups exampleWorld) = Inr exampleView
   \<and> length (reconciledSubWallets exampleView) = 3
   \<and> length (reconciledSubWallets exampleView)
         = card (\<Union>f\<in>set (fst (getBackupFiles exampleWorld)). subKey ` set (subEntries f))
   \<and> distinct (map subKey (reconciledSubWallets exampleView))"
proof -
  have h: "fst (getAllWalletsFromBackups exampleWorld) = Inr exampleView"
    by code_simp
  have n: "length (reconciledSubWallets exampleView) = 3"
    by (simp add: exampleView_def)
  from reconcile_one_record_per_key_newest_wins[OF h] h n show ?thesis
    by (intro conjI) (erule conjE | assumption)+
qed

section \<open>What the operations leave unchanged\<close>

lemma sameButTick_refl: "sameButTick w w"
  unfolding sameButTick_def by (rule exI[of _ "tick w"]) simp

lemma sameButTick_trans: "sameButTick a b \<Longrightarrow> sameButTick b c \<Longrightarrow> sameButTick a c"
  unfolding sameButTick_def by auto

lemma sameButTick_fields:
  "sameButTick w w' \<Longrightarrow> files w' = files w \<and> clock w' = clock w \<and> keygen w' = keygen w
     \<and> minted w' = minted w \<and> diskError w' = diskError w"
  unfolding sameButTick_def by auto

lemma Date_now_same: "sameButTick w (snd (Date_now w))"
  unfolding sameButTick_def Date_now_def by auto

lemma normalize_same: "sameButTick w (snd (normalizeBackupFormat raw w))"
  using Date_now_same[of w]
  by (auto simp: normalizeBackupFormat_def Let_def sameButTick_refl split: prod.splits)

lemma readBackupFiles_same: "sameButTick w (snd (readBackupFiles fs w))"
proof (induction fs arbitrary: w)
  case Nil
  show ?case by (simp add: sameButTick_refl)
next
  case (Cons a fs)
  obtain name content where a: "a = (name, content)" by (cases a)
  show ?case
  proof (cases "startsWith name ''wallets-'' \<and> endsWith name ''.json''")
    case False
    then show ?thesis using Cons.IH[of w] a by auto
  next
    case True
    show ?thesis
    proof (cases content)
      case None
      then show ?thesis using Cons.IH[of w] a True by auto
    next
      case (Some raw)
      have "sameButTick w (snd (normalizeBackupFormat raw w))" by (rule normalize_same)
      moreover have "sameButTick (snd (normalizeBackupFormat raw w))
          (snd (readBackupFiles fs (snd (normalizeBackupFormat raw w))))" by (rule Cons.IH)
      ultimately have "sameButTick w (snd (readBackupFiles fs (snd (normalizeBackupFormat raw w))))"
        by (rule sameButTick_trans)
      then show ?thesis using a True Some by (auto split: prod.splits)
    qed
  qed
qed

lemma getBackupFiles_same: "sameButTick w (snd (getBackupFiles w))"
  using readBackupFiles_same[of w "files w"]
  by (auto simp: getBackupFiles_def split: prod.splits)

lemma getAllWalletsFromBackups_same: "sameButTick w (snd (getAllWalletsFromBackups w))"
  using getBackupFiles_same[of w]
  by (auto simp: getAllWalletsFromBackups_def split: prod.splits)





section \<open>The listing depends on the stored contents only through the clock\<close>

lemma publicKey_normalizeSubWallets:
  "map publicKey (map (\<lambda>(i, wallet). normalizeSubWallet ts i wallet) (zip [0..<length raws] raws))
     = map publicKey raws"
proof -
  let ?zs = "zip [0..<length raws] raws"
  have z: "map snd ?zs = raws"
    by (rule map_snd_zip) simp
  have a: "map publicKey (map (\<lambda>(i, wallet). normalizeSubWallet ts i wallet) ?zs)
      = map (\<lambda>x. publicKey (snd x)) ?zs"
    by (simp add: normalizeSubWallet_def split_def comp_def)
  have b: "map (\<lambda>x. publicKey (snd x)) ?zs = map publicKey (map snd ?zs)"
    by (simp only: map_map comp_def)
  show ?thesis by (simp only: a b z)
qed

lemma normalize_subWallets_None:
  "subWallets (fst (normalizeBackupFormat raw w)) = None \<longleftrightarrow> rawLacksSubWallets raw"
  by (auto simp: normalizeBackupFormat_def rawLacksSubWallets_def Let_def split: prod.splits)

lemma normalize_subKeys:
  "subKey ` set (subEntries \<lparr>filename = name, path = p,
       file_timestamp = t, data = fst (normalizeBackupFormat raw w)\<rparr>) = rawSubKeys raw"
proof (cases "raw_metadata raw \<noteq> None \<and> truthyNum (raw_timestamp raw) \<and> truthyMain (raw_mainWallet raw)")
  case True
  then have "subWallets (fst (normalizeBackupFormat raw w)) = raw_subWallets raw"
    by (simp add: normalizeBackupFormat_def)
  then show ?thesis
    by (cases "raw_subWallets raw")
      (simp_all add: subEntries_def rawSubKeys_def subKey_def image_image)
next
  case False
  let ?p = "if truthyNum (raw_timestamp raw) \<or> truthyNum (raw_createdAt raw)
               then ((if truthyNum (raw_createdAt raw)
                      then the (raw_createdAt raw)
                      else the (raw_timestamp raw)), w)
               else Date_now w"
  let ?raws = "case raw_subWallets raw of None \<Rightarrow> [] | Some ws \<Rightarrow> ws"
  have sw: "subWallets (fst (normalizeBackupFormat raw w))
      = Some (map (\<lambda>(i, wallet). normalizeSubWallet (fst ?p) i wallet) (zip [0..<length ?raws] ?raws))"
    by (subst normalizeBackupFormat_def, subst if_not_P[OF False]) (simp add: Let_def split_def)
  have "subKey ` set (subEntries \<lparr>filename = name, path = p,
       file_timestamp = t, data = fst (normalizeBackupFormat raw w)\<rparr>)
     = set (map publicKey (map (\<lambda>(i, wallet). normalizeSubWallet (fst ?p) i wallet) (zip [0..<length ?raws] ?raws)))"
    unfolding subEntries_def by (simp add: sw subKey_def image_image del: map_map)
  also have "\<dots> = rawSubKeys raw"
    by (simp only: publicKey_normalizeSubWallets rawSubKeys_def set_map)
  finally show ?thesis .
qed

lemma readBackupFiles_keys:
  "(\<Union>f\<in>set (fst (readBackupFiles fs w)). subKey ` set (subEntries f)) = (\<Union>raw\<in>set (listedRaws fs). rawSubKeys raw)
   \<and> ((\<exists>f\<in>set (fst (readBackupFiles fs w)). subWallets (data f) = None) \<longleftrightarrow> (\<exists>raw\<in>set (listedRaws fs). rawLacksSubWallets raw))"
proof (induction fs arbitrary: w)
  case Nil
  show ?case by simp
next
  case (Cons a fs)
  obtain name content where a: "a = (name, content)" by (cases a)
  show ?case
  proof (cases "startsWith name ''wallets-'' \<and> endsWith name ''.json''")
    case False
    then show ?thesis using Cons.IH[of w] a by auto
  next
    case True
    show ?thesis
    proof (cases content)
      case None
      then show ?thesis using Cons.IH[of w] a True by auto
    next
      case (Some raw)
      obtain b w1 where n: "normalizeBackupFormat raw w = (b, w1)" by (cases "normalizeBackupFormat raw w")
      obtain more w2 where m: "readBackupFiles fs w1 = (more, w2)" by (cases "readBackupFiles fs w1")
      have r: "fst (readBackupFiles (a # fs) w)
          = \<lparr>filename = name, path = backupDir @ ''/'' @ name, file_timestamp = timestamp b, data = b\<rparr> # more"
        using a True Some n m by simp
      have k: "subKey ` set (subEntries \<lparr>filename = name, path = backupDir @ ''/'' @ name, file_timestamp = timestamp b, data = b\<rparr>)
          = rawSubKeys raw"
        using normalize_subKeys[of name "backupDir @ ''/'' @ name" "timestamp b" raw w] n by simp
      have l: "subWallets b = None \<longleftrightarrow> rawLacksSubWallets raw"
        using normalize_subWallets_None[of raw w] n by simp
      have lr: "listedRaws (a # fs) = raw # listedRaws fs" using a True Some by simp
      from Cons.IH[of w1] m have ih:
        "(\<Union>f\<in>set more. subKey ` set (subEntries f)) = (\<Union>raw\<in>set (listedRaws fs). rawSubKeys raw)"
        "(\<exists>f\<in>set more. subWallets (data f) = None) \<longleftrightarrow> (\<exists>raw\<in>set (listedRaws fs). rawLacksSubWallets raw)"
        by auto
      show ?thesis unfolding r lr using k l ih by simp
    qed
  qed
qed

lemma set_sortNewestFirst: "set (sortNewestFirst fs) = set fs"
  by (simp add: sortNewestFirst_def)

lemma reconciled_count:
  assumes "fst (getAllWalletsFromBackups w) = Inr view"
  shows "length (reconciledSubWallets view) = card (\<Union>raw\<in>set (listedRaws (files w)). rawSubKeys raw)"
proof -
  have "subKey ` set (concat (map subEntries (fst (getBackupFiles w))))
          = (\<Union>f\<in>set (fst (getBackupFiles w)). subKey ` set (subEntries f))" by auto
  then have "length (reconciledSubWallets view)
         = card (\<Union>f\<in>set (fst (getBackupFiles w)). subKey ` set (subEntries f))"
    unfolding reconciled_lists(1)[OF assms] by (simp only: length_uniqueByKey)
  also have "set (fst (getBackupFiles w)) = set (fst (readBackupFiles (files w) w))"
    by (simp add: getBackupFiles_def set_sortNewestFirst split: prod.splits)
  finally show ?thesis using readBackupFiles_keys[of "files w" w] by simp
qed

lemma reconcile_fails_iff:
  "(\<exists>msg. fst (getAllWalletsFromBackups w) = Inl msg) \<longleftrightarrow> (\<exists>raw\<in>set (listedRaws (files w)). rawLacksSubWallets raw)"
proof -
  obtain fs w1 where g: "getBackupFiles w = (fs, w1)" by (cases "getBackupFiles w")
  have "set fs = set (fst (readBackupFiles (files w) w))"
    using g by (auto simp: getBackupFiles_def set_sortNewestFirst split: prod.splits)
  then have "(\<exists>f\<in>set fs. subWallets (data f) = None) \<longleftrightarrow> (\<exists>raw\<in>set (listedRaws (files w)). rawLacksSubWallets raw)"
    using readBackupFiles_keys[of "files w" w] by simp
  moreover have "(\<exists>msg. fst (getAllWalletsFromBackups w) = Inl msg) \<longleftrightarrow> (\<exists>f\<in>set fs. subWallets (data f) = None)"
    using g by (simp add: getAllWalletsFromBackups_def reconcile_def)
  ultimately show ?thesis by simp
qed

lemma getAll_stamped:
  assumes "allStamped w"
  shows "snd (getAllWalletsFromBackups w) = w"
proof -
  have n: "stamped raw \<Longrightarrow> snd (normalizeBackupFormat raw v) = v" for raw v
    by (auto simp: normalizeBackupFormat_def stamped_def Let_def split: prod.splits)
  have "\<forall>(name, content) \<in> set fs. (case content of None \<Rightarrow> True | Some raw \<Rightarrow> stamped raw)
       \<Longrightarrow> snd (readBackupFiles fs v) = v" for fs v
  proof (induction fs arbitrary: v)
    case Nil
    show ?case by simp
  next
    case (Cons a fs)
    obtain name content where a: "a = (name, content)" by (cases a)
    from Cons.prems have rest: "\<forall>(name, content) \<in> set fs. (case content of None \<Rightarrow> True | Some raw \<Rightarrow> stamped raw)"
      by simp
    show ?case
    proof (cases content)
      case None
      then show ?thesis using Cons.IH[OF rest, of v] a by simp
    next
      case (Some raw)
      with Cons.prems a have "stamped raw" by simp
      then have "snd (normalizeBackupFormat raw v) = v" by (rule n)
      then show ?thesis using Cons.IH[OF rest, of v] a Some
        by (auto split: prod.splits)
    qed
  qed
  from this[of "files w" w] assms have "snd (readBackupFiles (files w) w) = w"
    by (simp add: allStamped_def)
  then show ?thesis
    by (cases "readBackupFiles (files w) w")
      (simp add: getAllWalletsFromBackups_def getBackupFiles_def)
qed

section \<open>Provisioning: \<open>createSubWallets\<close>\<close>





text \<open>
  C7, as stated, fails: with two legacy snapshots that carry no timestamp, the listing
  takes their timestamps from the clock, and two calls of \<open>createSubWallets(1)\<close> with
  nothing in between return different identities, although the reconciled set has two
  sub-wallets and neither call writes.
\<close>

theorem createSubWallets_repeat_differs_without_timestamps:
  "fst (getAllWalletsFromBackups legacyWorld) = Inr legacyView
   \<and> (1::int) \<le> int (length (reconciledSubWallets legacyView))
   \<and> wallets (fst (createSubWallets 1 legacyWorld)) = Some legacyFirst
   \<and> files (snd (createSubWallets 1 legacyWorld)) = files legacyWorld
   \<and> wallets (fst (createSubWallets 1 (snd (createSubWallets 1 legacyWorld)))) = Some legacySecond
   \<and> legacyFirst \<noteq> legacySecond"
  by code_simp

text \<open>
  C7, amended. When the reconciled set has at least \<open>count\<close> sub-wallets, neither the
  first nor an immediately repeated call of \<open>createSubWallets(count)\<close> changes the files
  of the store; and when every stored snapshot carries a \<open>timestamp\<close> or a
  \<open>createdAt\<close> (as every snapshot written by \<open>createBackup\<close> does), the repeated call
  returns the same result as the first.
\<close>

theorem createSubWallets_repeat_same_when_stamped:
  assumes ex: "fst (getAllWalletsFromBackups w) = Inr existing"
    and enough: "count \<le> int (length (reconciledSubWallets existing))"
  shows "files (snd (createSubWallets count w)) = files w
    \<and> files (snd (createSubWallets count (snd (createSubWallets count w)))) = files w
    \<and> (allStamped w \<longrightarrow>
         fst (createSubWallets count (snd (createSubWallets count w)))
           = fst (createSubWallets count w))"
proof -
  obtain w1 where g: "getAllWalletsFromBackups w = (Inr existing, w1)"
    using ex by (cases "getAllWalletsFromBackups w") auto
  have s1: "sameButTick w w1" using getAllWalletsFromBackups_same[of w] g by simp
  have c1: "createSubWallets count w
     = (\<lparr>success = True, error = None,
         wallets = Some (map infoWithFile (slice0 count (reconciledSubWallets existing)))\<rparr>, w1)"
    using g enough by (simp add: createSubWallets_def)
  have f1: "files w1 = files w" using sameButTick_fields[OF s1] by simp
  obtain x w2 where g2: "getAllWalletsFromBackups w1 = (x, w2)"
    by (cases "getAllWalletsFromBackups w1")
  have s2: "sameButTick w1 w2" using getAllWalletsFromBackups_same[of w1] g2 by simp
  have f2: "files w2 = files w" using sameButTick_fields[OF s2] f1 by simp
  have second: "files (snd (createSubWallets count w1)) = files w"
  proof (cases x)
    case (Inl msg)
    then show ?thesis using g2 f2 by (simp add: createSubWallets_def)
  next
    case (Inr v)
    have "length (reconciledSubWallets v) = card (\<Union>raw\<in>set (listedRaws (files w1)). rawSubKeys raw)"
      using reconciled_count[of w1 v] g2 Inr by simp
    also have "\<dots> = length (reconciledSubWallets existing)"
      using reconciled_count[OF ex] f1 by simp
    finally have "count \<le> int (length (reconciledSubWallets v))" using enough by simp
    then show ?thesis using g2 Inr f2 by (simp add: createSubWallets_def)
  qed
  have third: "fst (createSubWallets count w1) = fst (createSubWallets count w)" if "allStamped w"
  proof -
    have "w1 = w" using getAll_stamped[OF that] g by simp
    then show ?thesis using c1 by simp
  qed
  show ?thesis using c1 f1 second third by simp
qed

theorem createSubWallets_repeat_same_when_stamped_witness:
  "fst (getAllWalletsFromBackups exampleWorld) = Inr exampleView
   \<and> 2 \<le> int (length (reconciledSubWallets exampleView))
   \<and> allStamped exampleWorld
   \<and> files (snd (createSubWallets 2 exampleWorld)) = files exampleWorld
   \<and> files (snd (createSubWallets 2 (snd (createSubWallets 2 exampleWorld)))) = files exampleWorld
   \<and> fst (createSubWallets 2 (snd (createSubWallets 2 exampleWorld)))
           = fst (createSubWallets 2 exampleWorld)"
proof -
  have h: "fst (getAllWalletsFromBackups exampleWorld) = Inr exampleView"
    by code_simp
  have n: "2 \<le> int (length (reconciledSubWallets exampleView))"
    by (simp add: exampleView_def)
  have s: "allStamped exampleWorld"
    by code_simp
  from createSubWallets_repeat_same_when_stamped[OF h n] h n s show ?thesis by simp
qed

section \<open>The main wallet of a listed snapshot\<close>

text \<open>
  A snapshot stored without a main wallet is listed with the placeholder identity, and
  so is every snapshot that \<open>updateBackupWithNewWallets\<close> writes, since it stores the
  sub-wallets only.
\<close>

lemma normalize_missing_main_wallet:
  assumes "raw_mainWallet raw = MainUndefined"
  shows "\<exists>ts. mainWallet (fst (normalizeBackupFormat raw w)) = MainObject (placeholderMainWallet ts)"
  using assms
  by (auto simp: normalizeBackupFormat_def truthyMain_def Let_def split: prod.splits)

lemma normalize_main_wallet_defined:
  assumes "raw_mainWallet raw \<noteq> MainOther"
  shows "mainWallet (fst (normalizeBackupFormat raw w)) \<noteq> MainUndefined"
  using assms
  by (cases "raw_mainWallet raw")
    (auto simp: normalizeBackupFormat_def truthyMain_def Let_def split: prod.splits)

lemma placeholder_in_reconciled_example:
  "map (map_option publicKey \<circ> item) (mainWallets exampleView)
     = [Some ''9q36V4YA4wNbywXzttshrKfAursbwVUv5F4zHZ1DbTFs'']"
  by (simp add: exampleView_def placeholderMainWallet_def)

text \<open>
  C10. The claim that every backup returned by \<open>getBackupFiles\<close> has a defined
  \<open>mainWallet\<close> does not hold of the code: a legacy snapshot whose stored
  \<open>mainWallet\<close> is truthy but no object takes neither branch of the normalisation and
  is listed with \<open>mainWallet\<close> undefined.
\<close>

theorem getBackupFiles_non_object_main_wallet_undefined:
  "map (\<lambda>f. (filename f, mainWallet (data f))) (fst (getBackupFiles strayMainWorld))
     = [(''wallets-50.json'', MainUndefined)]"
  by code_simp

section \<open>Recovery: \<open>recoverAllFunds\<close>\<close>

lemma recoverWallet_appends:
  "recoverWallet L tok wallet (txs, tot, calls)
     = (txs @ walletTransactions L tok wallet, tot + walletRecovered L tok wallet,
        calls @ walletCalls L tok wallet)"
  unfolding walletTransactions_def walletRecovered_def walletCalls_def recoverWallet_def
  by (simp add: Let_def split_def split: option.splits sum.splits)

lemma recoverLoop_appends:
  "foldl (\<lambda>acc wallet. recoverWallet L tok wallet acc) (txs, tot, calls) ws
     = (txs @ concat (map (walletTransactions L tok) ws),
        tot + sum_list (map (walletRecovered L tok) ws),
        calls @ concat (map (walletCalls L tok) ws))"
proof (induction ws arbitrary: txs tot calls)
  case Nil
  show ?case by simp
next
  case (Cons a ws)
  show ?case by (simp add: recoverWallet_appends Cons.IH add.assoc)
qed

lemma walletRecovered_throwing:
  "keyError L (privateKey (identity wallet)) \<noteq> None \<Longrightarrow> walletRecovered L tok wallet = 0
     \<and> walletTransactions L tok wallet = []"
  by (auto simp: walletRecovered_def walletTransactions_def recoverWallet_def)

lemma walletRecovered_dust:
  "fst (getBalance L (publicKey (identity wallet))) \<le> 1 / 1000000 \<Longrightarrow> walletRecovered L tok wallet = 0"
  unfolding walletRecovered_def recoverWallet_def
  by (simp add: Let_def split_def split: option.splits sum.splits)

lemma recoverAllFunds_valid:
  assumes "\<not> structurallyInvalid L key"
  shows "fst (fst (recoverAllFunds L key tok w))
     = \<lparr>success = True, error = None,
        recoveredAmount = Some (sum_list (map (walletRecovered L tok) (all_subWallets (fst (getAllWallets w))))),
        transactions = Some (concat (map (walletTransactions L tok) (all_subWallets (fst (getAllWallets w)))))\<rparr>"
  using assms unfolding structurallyInvalid_def recoverAllFunds_def
  by (simp add: recoverLoop_appends split_def Let_def split: option.splits)

lemma recoverAllFunds_invalid:
  assumes "structurallyInvalid L key"
  shows "\<not> success (fst (fst (recoverAllFunds L key tok w))) \<and> snd (fst (recoverAllFunds L key tok w)) = []
     \<and> snd (recoverAllFunds L key tok w) = w"
  using assms unfolding structurallyInvalid_def recoverAllFunds_def
  by (auto simp: split_def Let_def split: option.splits)







text \<open>
  C4. \<open>recoverAllFunds\<close> returns \<open>success = false\<close> exactly when the owner key is
  structurally invalid (empty, shorter than 50 characters, or not decodable as a secret
  key), and then it has made no network call; with a valid key and no worker holding
  more than the dust threshold it returns \<open>success = true\<close> and \<open>recoveredAmount = 0\<close>.
\<close>

theorem recoverAllFunds_fails_only_on_invalid_owner_key:
  "(\<not> success (fst (fst (recoverAllFunds L key tok w))) \<longleftrightarrow> structurallyInvalid L key)
   \<and> (\<not> success (fst (fst (recoverAllFunds L key tok w)))
        \<longrightarrow> snd (fst (recoverAllFunds L key tok w)) = [])
   \<and> (\<not> structurallyInvalid L key
        \<and> (\<forall>wallet \<in> set (all_subWallets (fst (getAllWallets w))).
              fst (getBalance L (publicKey (identity wallet))) \<le> 1 / 1000000)
        \<longrightarrow> success (fst (fst (recoverAllFunds L key tok w)))
            \<and> recoveredAmount (fst (fst (recoverAllFunds L key tok w))) = Some 0)"
proof (cases "structurallyInvalid L key")
  case True
  from recoverAllFunds_invalid[OF True, of tok w] True show ?thesis by simp
next
  case False
  have z: "sum_list (map (walletRecovered L tok) ws) = 0"
    if "\<forall>wallet \<in> set ws. fst (getBalance L (publicKey (identity wallet))) \<le> 1 / 1000000" for ws
    using that by (induction ws) (simp_all add: walletRecovered_dust)
  from recoverAllFunds_valid[OF False, of tok w] False z show ?thesis by simp
qed

theorem recoverAllFunds_fails_only_on_invalid_owner_key_witness:
  "\<not> structurallyInvalid emptyLedger ownerKey
   \<and> map (\<lambda>wallet. fst (getBalance emptyLedger (publicKey (identity wallet))))
        (all_subWallets (fst (getAllWallets exampleWorld))) = [1 / 1000000, 0, 0]
   \<and> success (fst (fst (recoverAllFunds emptyLedger ownerKey (Some ''Tok'') exampleWorld)))
   \<and> recoveredAmount (fst (fst (recoverAllFunds emptyLedger ownerKey (Some ''Tok'') exampleWorld))) = Some 0
   \<and> structurallyInvalid emptyLedger ''short''
   \<and> \<not> success (fst (fst (recoverAllFunds emptyLedger ''short'' (Some ''Tok'') exampleWorld)))
   \<and> snd (fst (recoverAllFunds emptyLedger ''short'' (Some ''Tok'') exampleWorld)) = []"
proof -
  let ?ws = "all_subWallets (fst (getAllWallets exampleWorld))"
  have h: "\<not> structurallyInvalid emptyLedger ownerKey" by code_simp
  have m: "map (\<lambda>wallet. fst (getBalance emptyLedger (publicKey (identity wallet)))) ?ws
      = [1 / 1000000, 0, 0]" by code_simp
  have "\<forall>x \<in> set (map (\<lambda>wallet. fst (getBalance emptyLedger (publicKey (identity wallet)))) ?ws).
          x \<le> 1 / 1000000"
    unfolding m by simp
  then have b: "\<forall>wallet \<in> set ?ws.
          fst (getBalance emptyLedger (publicKey (identity wallet))) \<le> 1 / 1000000"
    by simp
  have i: "structurallyInvalid emptyLedger ''short''" by code_simp
  from recoverAllFunds_fails_only_on_invalid_owner_key[of emptyLedger ownerKey "Some ''Tok''" exampleWorld]
       recoverAllFunds_fails_only_on_invalid_owner_key[of emptyLedger "''short''" "Some ''Tok''" exampleWorld] h b i m
  show ?thesis by blast
qed

section \<open>The trading pass\<close>

lemma executeBuy_report:
  "success (fst (executeBuy L V wallet token amount s))
     = success (fst (executeBuy L V wallet token amount s'))"
  by (simp add: executeBuy_def Let_def split: option.splits sum.splits)

lemma executeSell_report:
  "success (fst (executeSell L V wallet token s))
     = success (fst (executeSell L V wallet token s'))"
  by (simp add: executeSell_def Let_def split: option.splits sum.splits prod.splits)

lemma getWalletBalance_value:
  "fst (getWalletBalance L pk s) = fst (getWalletBalance L pk s')"
  by (simp add: getWalletBalance_def)

lemma buyPhase_results:
  "fst (buyPhase L V token running ws c s)
     = map (buyReports L V token) (take (callsMade running c (length ws)) ws)"
proof (induction ws arbitrary: c s)
  case Nil
  show ?case by simp
next
  case (Cons wallet rest)
  show ?case
  proof (cases "running c")
    case False
    then show ?thesis by simp
  next
    case True
    let ?s1 = "log_entry Info ''Processing BUY for wallet'' s"
    let ?pk = "publicKey (identity wallet)"
    have bal: "fst (getWalletBalance L ?pk ?s1) = fst (getWalletBalance L ?pk nullSystem)"
      by (rule getWalletBalance_value)
    have rep: "success (fst (executeBuy L V wallet token
                  (fst (getWalletBalance L ?pk nullSystem) * (3 / 4)) t)) = buyReports L V token wallet" for t
      unfolding buyReports_def by (rule executeBuy_report)
    show ?thesis using True Cons.IH rep
      by (simp add: Let_def split_def bal)
  qed
qed

lemma sellPhase_results:
  "fst (sellPhase L V token running ws c s)
     = map (sellReports L V token) (take (callsMade running c (length ws)) ws)"
proof (induction ws arbitrary: c s)
  case Nil
  show ?case by simp
next
  case (Cons wallet rest)
  show ?case
  proof (cases "running c")
    case False
    then show ?thesis by simp
  next
    case True
    have rep: "success (fst (executeSell L V wallet token t)) = sellReports L V token wallet" for t
      unfolding sellReports_def by (rule executeSell_report)
    show ?thesis using True Cons.IH rep
      by (simp add: Let_def split_def)
  qed
qed

lemma callsMade_le: "callsMade running c n \<le> n"
  by (induction n arbitrary: c) auto

lemma callsMade_all: "(\<And>c. running c) \<Longrightarrow> callsMade running c n = n"
  by (induction n arbitrary: c) auto

lemma countComplete_step:
  "fst (foldl (\<lambda>(k, s') i. if P i then (Suc k, f s') else (k, g s')) (k0, s) is)
     = k0 + length (filter P is)"
  by (induction "is" arbitrary: k0 s) auto

lemma countComplete_count:
  "fst (countComplete bs ss n s)
     = length (filter (\<lambda>i. truthyAt bs i \<and> truthyAt ss i) [0..<n])"
  unfolding countComplete_def
  by (subst countComplete_step) simp

lemma length_filter_upt: "length (filter P [0..<n]) = card {i. i < n \<and> P i}"
proof -
  have "{i. i < n \<and> P ([0..<n] ! i)} = {i. i < n \<and> P i}" by auto
  then show ?thesis by (simp add: length_filter_conv_card)
qed

lemma truthyAt_map_take:
  "k \<le> length ws \<Longrightarrow> truthyAt (map f (take k ws)) i \<longleftrightarrow> i < k \<and> f (ws ! i)"
  by (auto simp: truthyAt_def)

text \<open>
  C8. After a pass over \<open>n > 0\<close> workers the success rate in the statistics is 100
  times the number of workers for which both the buy call and the sell call of this pass
  were made and reported success, divided by \<open>n\<close>; in a pass that is not interrupted
  these are the workers whose two calls report success. The value does not depend on
  the statistics before the pass. (In the witness two of three workers complete and the
  third fails its sale: the rate goes from 100 to 200/3, that is 66.7 per cent.)
\<close>

theorem tradingIteration_success_rate:
  assumes "botWallets (tradingBot s) \<noteq> []"
  shows "successRate (stats (tradingBot (tradingIteration L V token running s)))
     = of_nat (card {i. i < callsMade running 0 (length (botWallets (tradingBot s)))
                      \<and> i < callsMade running
                              (callsMade running 0 (length (botWallets (tradingBot s))))
                              (length (botWallets (tradingBot s)))
                      \<and> buyReports L V token (botWallets (tradingBot s) ! i)
                      \<and> sellReports L V token (botWallets (tradingBot s) ! i)})
         / of_nat (length (botWallets (tradingBot s))) * 100
    \<and> ((\<forall>c. running c) \<longrightarrow>
         successRate (stats (tradingBot (tradingIteration L V token running s)))
           = of_nat (card {i. i < length (botWallets (tradingBot s))
                      \<and> buyReports L V token (botWallets (tradingBot s) ! i)
                      \<and> sellReports L V token (botWallets (tradingBot s) ! i)})
             / of_nat (length (botWallets (tradingBot s))) * 100)"
proof -
  let ?ws = "botWallets (tradingBot s)"
  let ?n = "length ?ws"
  let ?nb = "callsMade running 0 ?n"
  let ?ns = "callsMade running ?nb ?n"
  let ?ok = "\<lambda>i. i < ?nb \<and> i < ?ns \<and> buyReports L V token (?ws ! i) \<and> sellReports L V token (?ws ! i)"
  have nb: "?nb \<le> ?n" and ns: "?ns \<le> ?n" by (rule callsMade_le)+
  have lb: "length (map (buyReports L V token) (take ?nb ?ws)) = ?nb" using nb by simp
  have "{i. i < ?n \<and> truthyAt (map (buyReports L V token) (take ?nb ?ws)) i
                  \<and> truthyAt (map (sellReports L V token) (take ?ns ?ws)) i}
        = {i. ?ok i}"
    using nb ns by (auto simp: truthyAt_map_take)
  then have cnt: "length (filter (\<lambda>i. truthyAt (map (buyReports L V token) (take ?nb ?ws)) i
                  \<and> truthyAt (map (sellReports L V token) (take ?ns ?ws)) i) [0..<?n])
        = card {i. ?ok i}"
    by (simp only: length_filter_upt)
  have pos: "0 < ?n" using assms by simp
  let ?s1 = "log_entry Info ''PHASE 1: Executing TOKEN BUYS sequentially for all sub-wallets...'' s"
  obtain bs s2 where b: "buyPhase L V token running ?ws 0 ?s1 = (bs, s2)"
    by (cases "buyPhase L V token running ?ws 0 ?s1")
  let ?s3 = "log_entry Info ''PHASE 2: Executing TOKEN SELLS sequentially for all sub-wallets...'' s2"
  obtain ss s4 where sl: "sellPhase L V token running ?ws (length bs) ?s3 = (ss, s4)"
    by (cases "sellPhase L V token running ?ws (length bs) ?s3")
  obtain k s5 where c: "countComplete bs ss ?n s4 = (k, s5)"
    by (cases "countComplete bs ss ?n s4")
  have bs: "bs = map (buyReports L V token) (take ?nb ?ws)"
    using buyPhase_results[of L V token running ?ws 0 ?s1] b by simp
  then have lbs: "length bs = ?nb" using lb by simp
  have ss: "ss = map (sellReports L V token) (take ?ns ?ws)"
    using sellPhase_results[of L V token running ?ws "length bs" ?s3] sl lbs by simp
  have k: "k = card {i. ?ok i}"
    using countComplete_count[of bs ss ?n s4] c cnt bs ss by simp
  have "successRate (stats (tradingBot (tradingIteration L V token running s)))
     = of_nat k / of_nat ?n * 100"
    using pos b sl c
    by (simp add: tradingIteration_def Let_def split_def log_entry_def emit_def)
  then have main: "successRate (stats (tradingBot (tradingIteration L V token running s)))
     = of_nat (card {i. ?ok i}) / of_nat ?n * 100"
    by (simp only: k)
  have "{i. ?ok i} = {i. i < ?n \<and> buyReports L V token (?ws ! i) \<and> sellReports L V token (?ws ! i)}"
    if "\<forall>c. running c"
    using that by (simp add: callsMade_all)
  with main show ?thesis by simp
qed

theorem tradingIteration_success_rate_witness:
  "botWallets (tradingBot tradingSystem) \<noteq> []
   \<and> length (botWallets (tradingBot tradingSystem)) = 3
   \<and> map (\<lambda>w. (buyReports tradeLedger tradeVenue ''Tok'' w, sellReports tradeLedger tradeVenue ''Tok'' w))
        (botWallets (tradingBot tradingSystem)) = [(True, True), (True, True), (True, False)]
   \<and> successRate (stats (tradingBot tradingSystem)) = 100
   \<and> successRate (stats (tradingBot
        (tradingIteration tradeLedger tradeVenue ''Tok'' (\<lambda>c. True) tradingSystem))) = 200 / 3"
proof -
  let ?ws = "botWallets (tradingBot tradingSystem)"
  let ?b = "buyReports tradeLedger tradeVenue ''Tok''"
  let ?s = "sellReports tradeLedger tradeVenue ''Tok''"
  have h: "?ws \<noteq> []" by code_simp
  have n: "length ?ws = 3" by code_simp
  have m: "map (\<lambda>w. (?b w, ?s w)) ?ws = [(True, True), (True, True), (True, False)]"
    by code_simp
  have p: "successRate (stats (tradingBot tradingSystem)) = 100" by code_simp
  have at: "(?b (?ws ! i), ?s (?ws ! i)) = map (\<lambda>w. (?b w, ?s w)) ?ws ! i" if "i < 3" for i
    using that n by simp
  have "{i. i < length ?ws \<and> ?b (?ws ! i) \<and> ?s (?ws ! i)} = {0, 1}"
  proof (intro set_eqI iffI)
    fix i assume "i \<in> {i. i < length ?ws \<and> ?b (?ws ! i) \<and> ?s (?ws ! i)}"
    then have i: "i < 3" "?b (?ws ! i)" "?s (?ws ! i)" using n by auto
    from i(1) consider "i = 0" | "i = 1" | "i = 2" by linarith
    then show "i \<in> {0, 1}"
    proof cases
      case 3
      from at[of 2] have "?s (?ws ! 2) = False" unfolding m by simp
      with i(3) 3 show ?thesis by simp
    qed simp_all
  next
    fix i :: nat assume "i \<in> {0, 1}"
    then consider "i = 0" | "i = 1" by auto
    then show "i \<in> {i. i < length ?ws \<and> ?b (?ws ! i) \<and> ?s (?ws ! i)}"
    proof cases
      case 1
      from at[of 0] have "?b (?ws ! 0) \<and> ?s (?ws ! 0)" unfolding m by simp
      with 1 n show ?thesis by simp
    next
      case 2
      from at[of 1] have "?b (?ws ! 1) \<and> ?s (?ws ! 1)" unfolding m by simp
      with 2 n show ?thesis by simp
    qed
  qed
  then have c: "card {i. i < length ?ws \<and> ?b (?ws ! i) \<and> ?s (?ws ! i)} = 2" by simp
  from tradingIteration_success_rate[OF h, of tradeLedger tradeVenue "''Tok''" "\<lambda>c. True"]
  have e1: "successRate (stats (tradingBot
        (tradingIteration tradeLedger tradeVenue ''Tok'' (\<lambda>c. True) tradingSystem)))
      = of_nat (card {i. i < length ?ws \<and> ?b (?ws ! i) \<and> ?s (?ws ! i)}) / of_nat (length ?ws) * 100"
    by blast
  have e2: "of_nat (card {i. i < length ?ws \<and> ?b (?ws ! i) \<and> ?s (?ws ! i)}) / of_nat (length ?ws) * 100
      = (200 / 3 :: rat)"
    by (simp only: c) (simp add: n)
  from e1 e2 have "successRate (stats (tradingBot
        (tradingIteration tradeLedger tradeVenue ''Tok'' (\<lambda>c. True) tradingSystem))) = 200 / 3"
    by (rule trans)
  with h n m p show ?thesis by simp
qed

section \<open>Stopping the bot\<close>

lemma idleWithConfig_reached:
  "tradingBot (snd (start exampleCrypto tradeLedger brokeVenue exampleConfig freshSystem))
     = tradingBot idleWithConfig
   \<and> fst (start exampleCrypto tradeLedger brokeVenue exampleConfig freshSystem)
     = \<lparr>success = False, error = Some ''Fund distribution failed: Insufficient balance''\<rparr>"
  by code_simp

text \<open>
  C9, as stated, fails: \<open>stop\<close> does not look at the flag, and on a bot that is not
  running but holds the configuration of an earlier \<open>start\<close> it starts the background
  cleanup, which sells on every worker and calls the recovery.
\<close>

theorem stop_when_not_running_starts_cleanup:
  "\<not> isRunning (tradingBot idleWithConfig)
   \<and> fst (stop idleWithConfig) = \<lparr>success = True, error = None\<rparr>
   \<and> effects (snd (stop idleWithConfig))
       = effects idleWithConfig @
         [Log Info ''Stopping trading bot...'',
          Log Success ''Trading bot stopped successfully'',
          StatsUpdate (stats (tradingBot idleWithConfig)),
          StartBackgroundCleanup]
   \<and> filter isNetworkEffect
        (effects (cleanupFundsInBackground tradeLedger tradeVenue idleWithConfig))
       = [SellSwap ''A'', SellSwap ''B'', SellSwap ''C'',
          RecoverCall ownerKey (Some ''Tok''),
          Network (TokenSale ''A'' ''Tok''), Network (BalanceQuery ''A''),
          Network (Transfer ''A'' 4999000),
          Network (TokenSale ''B'' ''Tok''), Network (BalanceQuery ''B''),
          Network (Transfer ''B'' 4999000),
          Network (TokenSale ''C'' ''Tok''), Network (BalanceQuery ''C''),
          Network (Transfer ''C'' 4999000)]"
  by code_simp

text \<open>
  C9, amended. On a bot that is not running (and has no timer pending) \<open>stop\<close> returns
  success and leaves the running flag, the configuration, the statistics, the worker
  list, the timers and the store as they are; it emits its two log entries and a
  statistics update; and it starts the background cleanup exactly when the bot holds a
  configuration from an earlier \<open>start\<close>.
\<close>

theorem stop_when_not_running:
  assumes "\<not> isRunning (tradingBot s)"
    and "intervalId (tradingBot s) = None" and "sessionTimeoutId (tradingBot s) = None"
  shows "fst (stop s) = \<lparr>success = True, error = None\<rparr>
    \<and> tradingBot (snd (stop s)) = tradingBot s
    \<and> store (snd (stop s)) = store s
    \<and> effects (snd (stop s))
        = effects s @ [Log Info ''Stopping trading bot...'',
                       Log Success ''Trading bot stopped successfully'',
                       StatsUpdate (stats (tradingBot s))]
            @ (if config (tradingBot s) = None then [] else [StartBackgroundCleanup])"
  using assms
  by (simp add: stop_def Let_def log_entry_def emit_def setBot_def)


theorem stop_when_not_running_witness:
  "\<not> isRunning (tradingBot freshSystem)
   \<and> intervalId (tradingBot freshSystem) = None \<and> sessionTimeoutId (tradingBot freshSystem) = None
   \<and> fst (stop freshSystem) = \<lparr>success = True, error = None\<rparr>
   \<and> tradingBot (snd (stop freshSystem)) = tradingBot freshSystem
   \<and> effects (snd (stop freshSystem))
       = [Log Info ''Stopping trading bot...'',
          Log Success ''Trading bot stopped successfully'',
          StatsUpdate resetStats]
   \<and> \<not> isRunning (tradingBot idleWithConfig)
   \<and> intervalId (tradingBot idleWithConfig) = None
   \<and> sessionTimeoutId (tradingBot idleWithConfig) = None
   \<and> tradingBot (snd (stop idleWithConfig)) = tradingBot idleWithConfig"
proof -
  have a: "\<not> isRunning (tradingBot freshSystem)" "intervalId (tradingBot freshSystem) = None"
    "sessionTimeoutId (tradingBot freshSystem) = None"
    by (simp_all add: freshSystem_def initialBot_def)
  have c: "config (tradingBot freshSystem) = None" "effects freshSystem = []"
    "stats (tradingBot freshSystem) = resetStats"
    by (simp_all add: freshSystem_def initialBot_def)
  have b: "\<not> isRunning (tradingBot idleWithConfig)"
    "intervalId (tradingBot idleWithConfig) = None"
    "sessionTimeoutId (tradingBot idleWithConfig) = None"
    by (simp_all add: idleWithConfig_def)
  from stop_when_not_running[OF a] stop_when_not_running[OF b] a b c show ?thesis by simp
qed

section \<open>The license gate of \<open>start\<close>\<close>

text \<open>
  C5. When the license key of the configuration fails validation, \<open>start\<close> returns
  \<open>success = false\<close>; it emits at most the log entry of the failed validation, makes
  no transfer (the distribution of funds is not reached), and leaves the bot and the
  files of the store as they are.
\<close>

theorem start_invalid_license_never_funds:
  assumes "\<not> valid (fst (validateLicenseKey C (licenseKey cfg) (store s)))"
  shows "\<not> success (fst (start C L V cfg s))
    \<and> (effects (snd (start C L V cfg s)) = effects s
         \<or> effects (snd (start C L V cfg s)) = effects s @ [Log Error ''License validation failed''])
    \<and> filter isTransferCall (effects (snd (start C L V cfg s))) = filter isTransferCall (effects s)
    \<and> tradingBot (snd (start C L V cfg s)) = tradingBot s
    \<and> files (store (snd (start C L V cfg s))) = files (store s)"
proof (cases "isRunning (tradingBot s)")
  case True
  then show ?thesis by (simp add: start_def)
next
  case False
  obtain lv w1 where v: "validateLicenseKey C (licenseKey cfg) (store s) = (lv, w1)"
    by (cases "validateLicenseKey C (licenseKey cfg) (store s)")
  have f: "files w1 = files (store s)"
    using v by (auto simp: validateLicenseKey_def Let_def Date_now_def
        split: if_splits sum.splits option.splits prod.splits)
  from assms v have "\<not> valid lv" by simp
  with False v f show ?thesis
    by (simp add: start_def log_entry_def)
qed

theorem start_invalid_license_never_funds_witness:
  "\<not> valid (fst (validateLicenseKey exampleCrypto (licenseKey expiredConfig) (store freshSystem)))
   \<and> fst (start exampleCrypto tradeLedger tradeVenue expiredConfig freshSystem)
       = \<lparr>success = False, error = Some ''Invalid license: License key expired''\<rparr>
   \<and> filter isTransferCall (effects (snd (start exampleCrypto tradeLedger tradeVenue expiredConfig freshSystem))) = []"
proof -
  have h: "\<not> valid (fst (validateLicenseKey exampleCrypto (licenseKey expiredConfig) (store freshSystem)))"
    by code_simp
  have r: "fst (start exampleCrypto tradeLedger tradeVenue expiredConfig freshSystem)
       = \<lparr>success = False, error = Some ''Invalid license: License key expired''\<rparr>"
    by code_simp
  have e: "effects freshSystem = []" by (simp add: freshSystem_def)
  from start_invalid_license_never_funds[OF h, of tradeLedger tradeVenue] h r e show ?thesis by simp
qed

text \<open>With a valid license the same configuration reaches the distribution of funds.\<close>

lemma start_valid_license_distributes_example:
  "fst (start exampleCrypto tradeLedger tradeVenue exampleConfig freshSystem)
     = \<lparr>success = True, error = None\<rparr>
   \<and> filter isTransferCall
        (effects (snd (start exampleCrypto tradeLedger tradeVenue exampleConfig freshSystem)))
     = [DistributeCall ownerKey [''A'', ''B'', ''C''] (1001 / 100000)]"
  by code_simp

end
